theory Spec2Isabelle
  imports Complex_Main "HOL-Library.AList" "HOL-Library.Sublist"
    "HOL-Library.Char_ord" "HOL-Library.List_Lexorder"
begin

section \<open>Values and exceptions of the Python program\<close>

text \<open>
  The pipeline works on the values that \<^verbatim>\<open>json.loads\<close> produces and that FastAPI
  hands over as \<^verbatim>\<open>dict\<close> and \<^verbatim>\<open>list\<close>. A Python \<^verbatim>\<open>dict\<close> keeps its keys
  in insertion order, so one with string keys is an association list with distinct
  keys: a lookup is
  \<^const>\<open>map_of\<close>, and an assignment \<^verbatim>\<open>d[k] = v\<close> is \<^const>\<open>AList.update\<close>, which
  replaces the value in place when the key is there and appends the entry otherwise.
  A \<^typ>\<open>char\<close> is one code point of a Python \<^verbatim>\<open>str\<close>, so the strings of the model
  are the Python strings whose code points are all below 256. A \<^verbatim>\<open>float\<close> carries
  the rational number it stands for, and \<^verbatim>\<open>NaN\<close>, \<^verbatim>\<open>Infinity\<close> and \<^verbatim>\<open>-Infinity\<close>,
  which \<^verbatim>\<open>json.loads\<close> also reads, carry their literal.
\<close>

datatype json =
    JNull
  | JBool bool
  | JInt int
  | JFloat rat
  | JNonFinite string
  | JStr string
  | JArr "json list"
  | JObj "(string \<times> json) list"

type_synonym dict = "(string \<times> json) list"

text \<open>
  The exceptions the modelled code can raise; a raise is the value \<open>Inl e\<close>. The last
  one is no exception of Python: it marks a text that decodes to a string with a code
  point above 255, for which the model gives no result.
\<close>

datatype error =
    KeyError
  | IndexError
  | ValueError
  | TypeError
  | AttributeError
  | UnboundLocalError
  | JSONDecodeError
  | RecursionError
  | CodePointAbove255

fun map_err :: "('a \<Rightarrow> error + 'b) \<Rightarrow> 'a list \<Rightarrow> error + 'b list" where
  "map_err f [] = Inr []"
| "map_err f (x # xs) =
     (case f x of
        Inl e \<Rightarrow> Inl e
      | Inr y \<Rightarrow> (case map_err f xs of Inl e \<Rightarrow> Inl e | Inr ys \<Rightarrow> Inr (y # ys)))"

subsection \<open>\<^verbatim>\<open>str.split(sep)\<close>, \<^verbatim>\<open>str.strip()\<close> and \<^verbatim>\<open>int(str)\<close>\<close>

text \<open>
  \<^verbatim>\<open>s.split(sep)\<close> with a non-empty separator cuts \<open>s\<close> at the non-overlapping
  occurrences of \<open>sep\<close>, scanning from the left; \<open>cur\<close> is the piece being read.
\<close>

function split_str :: "string \<Rightarrow> string \<Rightarrow> string \<Rightarrow> string list" where
  "split_str sep cur s =
     (if s = [] then [cur]
      else if sep \<noteq> [] \<and> prefix sep s then cur # split_str sep [] (drop (length sep) s)
      else split_str sep (cur @ [hd s]) (tl s))"
  by pat_completeness auto
termination
  by (relation "measure (\<lambda>(sep, cur, s). length s)") auto

declare split_str.simps [simp del]

definition py_split :: "string \<Rightarrow> string \<Rightarrow> string list" where
  "py_split s sep = split_str sep [] s"

text \<open>
  The code points below 256 for which \<^verbatim>\<open>str.isspace()\<close> holds: those that
  \<^verbatim>\<open>str.strip()\<close> removes and \<^verbatim>\<open>\s\<close> matches.
\<close>

definition is_space :: "char \<Rightarrow> bool" where
  "is_space c = ((of_char c :: nat) \<in> {9, 10, 11, 12, 13, 28, 29, 30, 31, 32, 133, 160})"

definition py_strip :: "string \<Rightarrow> string" where
  "py_strip s = rev (dropWhile is_space (rev (dropWhile is_space s)))"

definition is_digit :: "char \<Rightarrow> bool" where
  "is_digit c = (48 \<le> (of_char c :: nat) \<and> (of_char c :: nat) \<le> 57)"

definition digit_val :: "char \<Rightarrow> int" where
  "digit_val c = int (of_char c) - 48"

text \<open>
  The digits of an integer literal after its first digit: each further digit may be
  preceded by one underscore (\<^verbatim>\<open>int("1_000") == 1000\<close>, \<^verbatim>\<open>int("1__0")\<close> raises).
\<close>

fun digits_val :: "int \<Rightarrow> string \<Rightarrow> int option" where
  "digits_val acc [] = Some acc"
| "digits_val acc [c] = (if is_digit c then Some (acc * 10 + digit_val c) else None)"
| "digits_val acc (c # d # cs) =
     (if is_digit c then digits_val (acc * 10 + digit_val c) (d # cs)
      else if c = CHR ''_'' \<and> is_digit d then digits_val (acc * 10 + digit_val d) cs
      else None)"

definition unsigned_val :: "string \<Rightarrow> int option" where
  "unsigned_val s =
     (case s of
        [] \<Rightarrow> None
      | c # cs \<Rightarrow> if is_digit c then digits_val (digit_val c) cs else None)"

text \<open>
  The white space that \<^verbatim>\<open>int(s)\<close> drops around the literal: the six ASCII
  characters \<^verbatim>\<open>" \t\n\v\f\r"\<close> and the white space above ASCII (below 256 these
  are U+0085 and U+00A0). The separators U+001C to U+001F, which \<^verbatim>\<open>str.strip()\<close>
  removes, are not among them.
\<close>

definition is_int_space :: "char \<Rightarrow> bool" where
  "is_int_space c = ((of_char c :: nat) \<in> {9, 10, 11, 12, 13, 32, 133, 160})"

text \<open>
  \<^verbatim>\<open>int(s)\<close> for a string: surrounding white space is dropped, one sign is allowed,
  and anything but a decimal literal raises \<^verbatim>\<open>ValueError\<close>; below 256 the only
  decimal digits are the ASCII ones. A literal of more than 4300 digits raises
  \<^verbatim>\<open>ValueError\<close> as well (the interpreter's default limit on the conversion).
\<close>

definition py_int :: "string \<Rightarrow> error + int" where
  "py_int s =
     (let t = rev (dropWhile is_int_space (rev (dropWhile is_int_space s)));
          r = (case t of
                 [] \<Rightarrow> None
               | c # cs \<Rightarrow>
                   if c = CHR ''-'' then map_option uminus (unsigned_val cs)
                   else if c = CHR ''+'' then unsigned_val cs
                   else unsigned_val t)
      in case r of
           None \<Rightarrow> Inl ValueError
         | Some n \<Rightarrow> if length (filter is_digit t) > 4300 then Inl ValueError else Inr n)"

subsection \<open>Lengths, iteration and sets\<close>

text \<open>\<^verbatim>\<open>len(v)\<close>, and the elements that an iteration over \<open>v\<close> visits, by the type of the value.\<close>

definition py_len :: "json \<Rightarrow> error + nat" where
  "py_len v =
     (case v of
        JArr xs \<Rightarrow> Inr (length xs)
      | JStr s \<Rightarrow> Inr (length s)
      | JObj kvs \<Rightarrow> Inr (length kvs)
      | _ \<Rightarrow> Inl TypeError)"

definition py_iter :: "json \<Rightarrow> json list" where
  "py_iter v =
     (case v of
        JArr xs \<Rightarrow> xs
      | JStr s \<Rightarrow> map (\<lambda>c. JStr [c]) s
      | JObj kvs \<Rightarrow> map (\<lambda>kv. JStr (fst kv)) kvs
      | _ \<Rightarrow> [])"

subsection \<open>Keys of a \<^verbatim>\<open>dict\<close> and members of a \<^verbatim>\<open>set\<close>\<close>

text \<open>
  A key is found by its hash and \<^verbatim>\<open>==\<close>: \<^verbatim>\<open>True\<close>, \<^verbatim>\<open>1\<close> and \<^verbatim>\<open>1.0\<close> are one
  key, as are an \<^verbatim>\<open>int\<close> and a \<^verbatim>\<open>float\<close> of the same value in general, and a
  \<^verbatim>\<open>list\<close> or a \<^verbatim>\<open>dict\<close> cannot be hashed: using one as a key raises
  \<^verbatim>\<open>TypeError\<close>. \<open>key_of\<close> picks one value among those that are equal. (The
  \<^verbatim>\<open>NaN\<close> of \<^verbatim>\<open>json.loads\<close> is one object, which a lookup finds again by identity.)
\<close>

definition hashable :: "json \<Rightarrow> bool" where
  "hashable v = (case v of JArr xs \<Rightarrow> False | JObj kvs \<Rightarrow> False | _ \<Rightarrow> True)"

definition key_of :: "json \<Rightarrow> json" where
  "key_of v =
     (case v of
        JBool b \<Rightarrow> JInt (if b then 1 else 0)
      | JFloat r \<Rightarrow> if of_int \<lfloor>r\<rfloor> = r then JInt \<lfloor>r\<rfloor> else v
      | _ \<Rightarrow> v)"

text \<open>
  A \<^verbatim>\<open>dict\<close> with such keys, in insertion order: \<^verbatim>\<open>d.get(k)\<close> and \<^verbatim>\<open>d[k] = v\<close> for
  a hashable \<open>k\<close>. An assignment to a key that is there keeps the key as it was
  first written.
\<close>

fun dict_get :: "(json \<times> 'v) list \<Rightarrow> json \<Rightarrow> 'v option" where
  "dict_get [] k = None"
| "dict_get (kv # d) k = (if key_of (fst kv) = key_of k then Some (snd kv) else dict_get d k)"

fun dict_set :: "json \<Rightarrow> 'v \<Rightarrow> (json \<times> 'v) list \<Rightarrow> (json \<times> 'v) list" where
  "dict_set k v [] = [(k, v)]"
| "dict_set k v (kv # d) =
     (if key_of (fst kv) = key_of k then (fst kv, v) # d else kv # dict_set k v d)"

text \<open>
  \<^verbatim>\<open>a_set.add(x)\<close>: a set is kept as a list without repetition
  (Python fixes no order for \<^verbatim>\<open>list(a_set)\<close>; only its length is used below).
\<close>

definition set_add :: "json \<Rightarrow> json list \<Rightarrow> error + json list" where
  "set_add x xs =
     (if \<not> hashable x then Inl TypeError
      else if key_of x \<in> set (map key_of xs) then Inr xs
      else Inr (xs @ [x]))"

section \<open>Stage 1: normalisation in \<^verbatim>\<open>comments_to_tree\<close>\<close>

text \<open>
  \<^verbatim>\<open>str.lower()\<close>: below 256 the upper-case letters are \<open>A\<close> to \<open>Z\<close> and U+00C0 to
  U+00DE without the multiplication sign U+00D7, and each has its lower-case letter 32
  places further on.
\<close>

definition lower_char :: "char \<Rightarrow> char" where
  "lower_char c =
     (let n = (of_char c :: nat)
      in if (65 \<le> n \<and> n \<le> 90) \<or> (192 \<le> n \<and> n \<le> 222 \<and> n \<noteq> 215) then char_of (n + 32)
         else c)"

definition py_lower :: "string \<Rightarrow> string" where
  "py_lower s = map lower_char s"

text \<open>The subtopic that the normalisation synthesizes for a topic named \<open>topic_name\<close>.\<close>

definition default_subtopic :: "string \<Rightarrow> json" where
  "default_subtopic topic_name =
     JObj [(''subtopicName'', JStr (''General '' @ topic_name)),
           (''subtopicShortDescription'', JStr (''General aspects of '' @ py_lower topic_name))]"

text \<open>
  The body of \<^verbatim>\<open>for topic in tree["taxonomy"]\<close>. An element that is no \<^verbatim>\<open>dict\<close> is
  skipped. A \<^verbatim>\<open>dict\<close> gets the default subtopic when it has no \<^verbatim>\<open>"subtopics"\<close> key or
  when the value under it is no list; \<^verbatim>\<open>topic_name.lower()\<close> raises when the name
  is no string.
\<close>

definition normalize_topic :: "json \<Rightarrow> error + json" where
  "normalize_topic topic =
     (case topic of
        JObj d \<Rightarrow>
          (case map_of d ''subtopics'' of
             Some (JArr subs) \<Rightarrow> Inr topic
           | _ \<Rightarrow>
               (case (case map_of d ''topicName'' of Some v \<Rightarrow> v | None \<Rightarrow> JStr ''Unknown Topic'') of
                  JStr topic_name \<Rightarrow>
                    Inr (JObj (AList.update ''subtopics'' (JArr [default_subtopic topic_name]) d))
                | _ \<Rightarrow> Inl AttributeError))
      | _ \<Rightarrow> Inr topic)"

text \<open>
  The \<^verbatim>\<open>"data"\<close> field of the response of \<^verbatim>\<open>POST /topic_tree\<close>, from the value the
  JSON extraction returned: a value that is no \<^verbatim>\<open>dict\<close>, has no \<^verbatim>\<open>"taxonomy"\<close> or
  has one that is no list gives the empty taxonomy; an exception inside the \<^verbatim>\<open>try\<close>
  sets \<^verbatim>\<open>tree = {}\<close>, and \<^verbatim>\<open>tree.get("taxonomy", [])\<close> is then \<^verbatim>\<open>[]\<close>.
\<close>

definition normalize_tree :: "json \<Rightarrow> json list" where
  "normalize_tree tree =
     (let taxonomy =
            (case tree of
               JObj d \<Rightarrow> (case map_of d ''taxonomy'' of Some (JArr ts) \<Rightarrow> ts | _ \<Rightarrow> [])
             | _ \<Rightarrow> [])
      in case map_err normalize_topic taxonomy of Inl e \<Rightarrow> [] | Inr ts \<Rightarrow> ts)"

text \<open>\<^verbatim>\<open>len(topic["subtopics"])\<close> of a returned topic, when it has such a list.\<close>

definition num_subtopics :: "json \<Rightarrow> nat option" where
  "num_subtopics topic =
     (case topic of
        JObj d \<Rightarrow> (case map_of d ''subtopics'' of Some (JArr subs) \<Rightarrow> Some (length subs) | _ \<Rightarrow> None)
      | _ \<Rightarrow> None)"

text \<open>A taxonomy whose only topic arrives with \<^verbatim>\<open>"subtopics": []\<close>.\<close>

definition pets_without_subtopics :: json where
  "pets_without_subtopics =
     JObj [(''taxonomy'',
            JArr [JObj [(''topicName'', JStr ''Pets''),
                        (''topicShortDescription'', JStr ''Opinions about pets.''),
                        (''subtopics'', JArr [])]])]"

section \<open>Stage 2: placement in \<^verbatim>\<open>all_comments_to_claims\<close>\<close>

text \<open>
  The part of \<^verbatim>\<open>all_comments_to_claims\<close> after the calls to the language model:
  \<open>comms_to_claims\<close> holds the extracted claims, each a \<^verbatim>\<open>dict\<close> into which
  \<^verbatim>\<open>commentId\<close> and \<^verbatim>\<open>speaker\<close> have been written, and \<open>taxonomy\<close> is
  \<^verbatim>\<open>req.tree["taxonomy"]\<close>, an array of objects. \<^verbatim>\<open>node_counts\<close> is a \<^verbatim>\<open>dict\<close>
  from topic names to buckets; names are the JSON values found under
  \<^verbatim>\<open>"topicName"\<close> and \<^verbatim>\<open>"subtopicName"\<close>, whatever their type, and are used as
  keys of a \<^verbatim>\<open>dict\<close>.
\<close>

record subtopic_bucket =
  sb_total :: int
  sb_claims :: "dict list"
  sb_speakers :: "json list"

record topic_bucket =
  tb_total :: int
  tb_speakers :: "json list"
  tb_subtopics :: "(json \<times> subtopic_bucket) list"

type_synonym node_counts = "(json \<times> topic_bucket) list"

text \<open>\<^verbatim>\<open>v[key]\<close> for a string key: only a \<^verbatim>\<open>dict\<close> can be indexed by a string.\<close>

definition py_getitem :: "json \<Rightarrow> string \<Rightarrow> error + json" where
  "py_getitem v key =
     (case v of
        JObj d \<Rightarrow> (case map_of d key of None \<Rightarrow> Inl KeyError | Some x \<Rightarrow> Inr x)
      | _ \<Rightarrow> Inl TypeError)"


text \<open>\<^verbatim>\<open>for x in v\<close>: the elements, or \<^verbatim>\<open>TypeError\<close> when \<open>v\<close> cannot be iterated.\<close>

definition iter_items :: "json \<Rightarrow> error + json list" where
  "iter_items v =
     (case v of
        JArr xs \<Rightarrow> Inr xs
      | JStr s \<Rightarrow> Inr (map (\<lambda>c. JStr [c]) s)
      | JObj kvs \<Rightarrow> Inr (map (\<lambda>kv. JStr (fst kv)) kvs)
      | _ \<Rightarrow> Inl TypeError)"











subsection \<open>Coverage of the taxonomy\<close>

text \<open>A topic is a key of the tree; a (topic, subtopic) pair has a bucket in the tree.\<close>

definition has_topic :: "node_counts \<Rightarrow> json \<Rightarrow> bool" where
  "has_topic nc tn = (dict_get nc tn \<noteq> None)"

definition has_bucket :: "node_counts \<Rightarrow> json \<Rightarrow> json \<Rightarrow> bool" where
  "has_bucket nc tn sn =
     (case dict_get nc tn of None \<Rightarrow> False | Some tb \<Rightarrow> dict_get (tb_subtopics tb) sn \<noteq> None)"

text \<open>
  The words of the coverage property. A taxonomy entry is named \<open>tn\<close> when its
  \<^verbatim>\<open>"topicName"\<close> equals \<open>tn\<close>; its subtopics are the elements the second loop
  iterates over; \<open>listed taxonomy tn\<close> are the subtopics of all entries named \<open>tn\<close>,
  in the order of the taxonomy; \<open>names_in subs sn\<close> says that some element of \<open>subs\<close>
  has the \<^verbatim>\<open>"subtopicName"\<close> \<open>sn\<close>. A claim is counted as it stands when it has a
  \<^verbatim>\<open>"topicName"\<close>, and with the default names written into it otherwise (not at all
  when the taxonomy is empty); it is counted under the topic and in the subtopic whose
  names it then carries.
\<close>

definition is_named :: "dict \<Rightarrow> json \<Rightarrow> bool" where
  "is_named topic tn =
     (case map_of topic ''topicName'' of None \<Rightarrow> False | Some t \<Rightarrow> key_of t = key_of tn)"

definition subtopics_of :: "dict \<Rightarrow> json list" where
  "subtopics_of topic =
     (case map_of topic ''subtopics'' of
        None \<Rightarrow> []
      | Some subs \<Rightarrow> (case iter_items subs of Inl e \<Rightarrow> [] | Inr items \<Rightarrow> items))"

definition listed :: "dict list \<Rightarrow> json \<Rightarrow> json list" where
  "listed taxonomy tn = concat (map subtopics_of (filter (\<lambda>topic. is_named topic tn) taxonomy))"

definition names_in :: "json list \<Rightarrow> json \<Rightarrow> bool" where
  "names_in subs sn =
     list_ex (\<lambda>sub. case py_getitem sub ''subtopicName'' of
                       Inl e \<Rightarrow> False
                     | Inr n \<Rightarrow> key_of n = key_of sn) subs"








definition dogs_claim :: dict where
  "dogs_claim =
     [(''claim'', JStr ''Dogs are superior pets.''), (''quote'', JStr ''dogs are great''),
      (''topicName'', JStr ''Pets''), (''subtopicName'', JStr ''Dogs''),
      (''commentId'', JStr ''c2''), (''speaker'', JStr ''Bob'')]"



section \<open>Stage 3: \<^verbatim>\<open>sort_claims_tree\<close>\<close>

text \<open>
  A claim is the \<^verbatim>\<open>dict\<close> the request carries. A subtopic bucket is read through
  its keys \<^verbatim>\<open>"total"\<close> and \<^verbatim>\<open>"claims"\<close>, a topic through \<^verbatim>\<open>"subtopics"\<close>; the
  types below hold exactly these keys, so a bucket that lacks one (a \<^verbatim>\<open>KeyError\<close>
  in Python) is outside the model. Token usage and cost are left out.
\<close>

record subtopic_data =
  total :: int
  claims :: "dict list"

type_synonym topic_data = "(string \<times> subtopic_data) list"

type_synonym claims_tree = "(string \<times> topic_data) list"

record subtopic_record =
  rec_claims :: "dict list"
  rec_speakers :: "json list"
  count_claims :: int
  count_speakers :: nat

record topic_record =
  topics :: "(string \<times> subtopic_record) list"
  speakers :: "json list"
  topic_count_claims :: int
  topic_count_speakers :: nat

subsection \<open>Parsing the relative ids of the nesting\<close>

text \<open>\<^verbatim>\<open>int(claim_key.split("Id")[1])\<close>: the index raises when there is no second piece.\<close>

definition parse_claim_id :: "string \<Rightarrow> error + int" where
  "parse_claim_id claim_key =
     (case py_split claim_key ''Id'' of
        a # b # rest \<Rightarrow> py_int b
      | _ \<Rightarrow> Inl IndexError)"

text \<open>An element of a value list has \<^verbatim>\<open>.split\<close> only when it is a string.\<close>

definition parse_dupe_key :: "json \<Rightarrow> error + int" where
  "parse_dupe_key v = (case v of JStr s \<Rightarrow> parse_claim_id s | _ \<Rightarrow> Inl AttributeError)"

subsection \<open>Closing the nesting into \<^verbatim>\<open>claim_set\<close>\<close>

text \<open>\<^verbatim>\<open>[d for i, d in enumerate(all_dupes) if i != curr_id]\<close>\<close>

definition other_ids_of :: "nat \<Rightarrow> int list \<Rightarrow> int list" where
  "other_ids_of curr_id all_dupes = take curr_id all_dupes @ drop (Suc curr_id) all_dupes"

text \<open>The inner loop that appends each \<open>other_id\<close> not yet in \<^verbatim>\<open>claim_set[dupe]\<close>.\<close>

fun append_missing :: "int list \<Rightarrow> int list \<Rightarrow> int list" where
  "append_missing cur [] = cur"
| "append_missing cur (other_id # rest) =
     append_missing (if other_id \<in> set cur then cur else cur @ [other_id]) rest"

definition link_dupe :: "int list \<Rightarrow> (int \<times> int list) list \<Rightarrow> nat \<Rightarrow> (int \<times> int list) list" where
  "link_dupe all_dupes claim_set curr_id =
     (let dupe = all_dupes ! curr_id;
          other_ids = other_ids_of curr_id all_dupes
      in case map_of claim_set dupe of
           Some cur \<Rightarrow> AList.update dupe (append_missing cur other_ids) claim_set
         | None \<Rightarrow> AList.update dupe other_ids claim_set)"

definition link_all :: "(int \<times> int list) list \<Rightarrow> int list \<Rightarrow> (int \<times> int list) list" where
  "link_all claim_set all_dupes = foldl (link_dupe all_dupes) claim_set [0..<length all_dupes]"

text \<open>The loop over \<^verbatim>\<open>deduped["nesting"].items()\<close>.\<close>

fun close_nesting :: "(int \<times> int list) list \<Rightarrow> dict \<Rightarrow> error + (int \<times> int list) list" where
  "close_nesting claim_set [] = Inr claim_set"
| "close_nesting claim_set ((claim_key, claim_vals) # rest) =
     (case py_len claim_vals of
        Inl e \<Rightarrow> Inl e
      | Inr n \<Rightarrow>
          if n > 0 then
            (case parse_claim_id claim_key of
               Inl e \<Rightarrow> Inl e
             | Inr claim_id \<Rightarrow>
                 (case map_err parse_dupe_key (py_iter claim_vals) of
                    Inl e \<Rightarrow> Inl e
                  | Inr dupe_ids \<Rightarrow> close_nesting (link_all claim_set (claim_id # dupe_ids)) rest))
          else close_nesting claim_set rest)"

text \<open>
  \<^verbatim>\<open>claim_set = {}\<close>, filled when \<^verbatim>\<open>"nesting" in deduped\<close>; \<^verbatim>\<open>.items()\<close> exists
  only on a \<^verbatim>\<open>dict\<close>.
\<close>

definition build_claim_set :: "dict \<Rightarrow> error + (int \<times> int list) list" where
  "build_claim_set deduped =
     (case map_of deduped ''nesting'' of
        None \<Rightarrow> Inr []
      | Some (JObj nesting) \<Rightarrow> close_nesting [] nesting
      | Some _ \<Rightarrow> Inl AttributeError)"

subsection \<open>Folding the duplicates of one subtopic\<close>

text \<open>
  \<^verbatim>\<open>claim_item.get("claimId") == dupe_id\<close>: Python's \<^verbatim>\<open>==\<close> between the stored
  value and an \<^verbatim>\<open>int\<close>. A missing key gives \<^verbatim>\<open>None\<close>, which equals no integer.
\<close>

definition eq_int :: "json \<Rightarrow> int \<Rightarrow> bool" where
  "eq_int v n =
     (case v of
        JInt m \<Rightarrow> m = n
      | JBool b \<Rightarrow> (if b then 1 else 0) = n
      | JFloat r \<Rightarrow> r = of_int n
      | _ \<Rightarrow> False)"

definition has_claim_id :: "int \<Rightarrow> dict \<Rightarrow> bool" where
  "has_claim_id dupe_id claim_item =
     (case map_of claim_item ''claimId'' of None \<Rightarrow> False | Some v \<Rightarrow> eq_int v dupe_id)"

text \<open>
  The search \<^verbatim>\<open>for claim_item in subtopic_data["claims"]\<close> with its \<^verbatim>\<open>break\<close>:
  the first claim whose \<^verbatim>\<open>"claimId"\<close> field equals \<open>dupe_id\<close>, or \<^verbatim>\<open>None\<close>.
\<close>

definition find_dupe_claim :: "dict list \<Rightarrow> int \<Rightarrow> dict option" where
  "find_dupe_claim cls dupe_id = find (has_claim_id dupe_id) cls"

text \<open>
  The loop \<^verbatim>\<open>for dupe_id in dupe_ids\<close>: \<open>acc\<close> is \<^verbatim>\<open>accounted_for_ids\<close>,
  \<open>dups\<close> is \<^verbatim>\<open>clean_claim["duplicates"]\<close>. A \<open>dupe_id\<close> is marked as accounted
  for whether or not a claim was found for it.
\<close>

fun collect_dupes :: "dict list \<Rightarrow> int list \<Rightarrow> int list \<Rightarrow> json list \<Rightarrow> int list \<times> json list" where
  "collect_dupes cls [] acc dups = (acc, dups)"
| "collect_dupes cls (dupe_id # rest) acc dups =
     (if dupe_id \<in> set acc then collect_dupes cls rest acc dups
      else
        (case find_dupe_claim cls dupe_id of
           Some dupe_claim \<Rightarrow>
             collect_dupes cls rest (dupe_id # acc)
               (dups @ [JObj (AList.update ''duplicated'' (JBool True) dupe_claim)])
         | None \<Rightarrow> collect_dupes cls rest (dupe_id # acc) dups))"

text \<open>\<^verbatim>\<open>claim["speaker"]\<close> when the key is there, \<^verbatim>\<open>"unknown"\<close> otherwise.\<close>

definition speaker_of :: "dict \<Rightarrow> json" where
  "speaker_of claim = (case map_of claim ''speaker'' of Some v \<Rightarrow> v | None \<Rightarrow> JStr ''unknown'')"

text \<open>
  The loop \<^verbatim>\<open>for claim_id, claim in enumerate(subtopic_data["claims"])\<close>. The state is
  (\<^verbatim>\<open>accounted_for_ids\<close>, \<^verbatim>\<open>deduped_claims\<close>, \<^verbatim>\<open>per_topic_speakers\<close>); \<open>todo\<close> is
  what is left of the enumeration.
\<close>

fun fold_claims ::
  "dict list \<Rightarrow> (int \<times> int list) list \<Rightarrow> (nat \<times> dict) list \<Rightarrow>
   int list \<times> dict list \<times> json list \<Rightarrow> error + int list \<times> dict list \<times> json list" where
  "fold_claims cls claim_set [] st = Inr st"
| "fold_claims cls claim_set ((claim_id, claim) # todo) (acc, deduped_claims, spk) =
     (case set_add (speaker_of claim) spk of
        Inl e \<Rightarrow> Inl e
      | Inr spk' \<Rightarrow>
          if int claim_id \<in> set acc then fold_claims cls claim_set todo (acc, deduped_claims, spk')
          else
            (let (acc', dups) =
                   (case map_of claim_set (int claim_id) of
                      Some dupe_ids \<Rightarrow> collect_dupes cls dupe_ids acc []
                    | None \<Rightarrow> (acc, []));
                 clean_claim = AList.update ''duplicates'' (JArr dups) claim
             in fold_claims cls claim_set todo
                  (int claim_id # acc', deduped_claims @ [clean_claim], spk')))"

text \<open>\<^verbatim>\<open>len(x["duplicates"])\<close>, the sort key of the emitted claims.\<close>

definition num_duplicates :: "dict \<Rightarrow> nat" where
  "num_duplicates c = (case map_of c ''duplicates'' of Some (JArr ds) \<Rightarrow> length ds | _ \<Rightarrow> 0)"

text \<open>
  \<^verbatim>\<open>sorted(xs, key=k, reverse=True)\<close> is stable: descending by key, equal keys in
  their original order. \<^const>\<open>sort_key\<close> is a stable insertion sort, here on the negated key.
\<close>

definition sorted_desc :: "('a \<Rightarrow> 'k::{linorder,uminus}) \<Rightarrow> 'a list \<Rightarrow> 'a list" where
  "sorted_desc k xs = sort_key (\<lambda>x. - k x) xs"

text \<open>
  The branch \<^verbatim>\<open>subtopic_data["total"] > 1\<close> after the response has arrived: the
  sorted canonical claims and the speakers of the subtopic.
\<close>

definition dedup_subtopic :: "dict list \<Rightarrow> dict \<Rightarrow> error + dict list \<times> json list" where
  "dedup_subtopic cls deduped =
     (case build_claim_set deduped of
        Inl e \<Rightarrow> Inl e
      | Inr claim_set \<Rightarrow>
          (case fold_claims cls claim_set (enumerate 0 cls) ([], [], []) of
             Inl e \<Rightarrow> Inl e
           | Inr (acc, deduped_claims, spk) \<Rightarrow>
               Inr (sorted_desc (\<lambda>x. int (num_duplicates x)) deduped_claims, spk)))"

subsection \<open>The loops over subtopics and topics\<close>

text \<open>
  \<open>dedup_claims\<close> stands for the source's \<^verbatim>\<open>dedup_claims\<close>, the call to the language
  model followed by the JSON extraction: it gives the \<^verbatim>\<open>"dedup_claims"\<close> object (always
  a \<^verbatim>\<open>dict\<close>), or raises, which the caller catches with \<^verbatim>\<open>continue\<close>.

  One subtopic. \<open>claim_bound\<close> says whether the local variable \<^verbatim>\<open>claim\<close> has been
  assigned by an earlier \<^verbatim>\<open>for claim_id, claim in ...\<close>: the branch for
  \<^verbatim>\<open>total \<le> 1\<close> prints \<^verbatim>\<open>claim\<close> when the first claim has no speaker. The result is
  the new \<open>claim_bound\<close> and the record stored in \<^verbatim>\<open>per_topic_list\<close>, or \<open>None\<close>
  after \<^verbatim>\<open>continue\<close>.
\<close>

definition process_subtopic ::
  "(dict list \<Rightarrow> error + dict) \<Rightarrow> bool \<Rightarrow> subtopic_data \<Rightarrow> error + bool \<times> subtopic_record option" where
  "process_subtopic dedup_claims claim_bound sd =
     (if total sd > 1 then
        (case dedup_claims (claims sd) of
           Inl e \<Rightarrow> Inr (claim_bound, None)
         | Inr deduped \<Rightarrow>
             (case dedup_subtopic (claims sd) deduped of
                Inl e \<Rightarrow> Inl e
              | Inr (sorted_deduped_claims, spk) \<Rightarrow>
                  Inr (claim_bound \<or> claims sd \<noteq> [],
                       Some \<lparr>rec_claims = sorted_deduped_claims, rec_speakers = spk,
                             count_claims = total sd, count_speakers = length spk\<rparr>)))
      else
        (case claims sd of
           [] \<Rightarrow>
             Inr (claim_bound,
                  Some \<lparr>rec_claims = [], rec_speakers = [],
                        count_claims = total sd, count_speakers = 0\<rparr>)
         | first # others \<Rightarrow>
             (case map_of first ''speaker'' of
                Some speaker \<Rightarrow>
                  if \<not> hashable speaker then Inl TypeError
                  else
                    Inr (claim_bound,
                         Some \<lparr>rec_claims = claims sd, rec_speakers = [speaker],
                               count_claims = total sd, count_speakers = 1\<rparr>)
              | None \<Rightarrow>
                  if claim_bound then
                    Inr (claim_bound,
                         Some \<lparr>rec_claims = claims sd, rec_speakers = [JStr ''unknown''],
                               count_claims = total sd, count_speakers = 1\<rparr>)
                  else Inl UnboundLocalError)))"

text \<open>
  \<^verbatim>\<open>for subtopic, subtopic_data in topic_data["subtopics"].items()\<close>; the state is
  (\<open>claim_bound\<close>, \<^verbatim>\<open>per_topic_total\<close>, \<^verbatim>\<open>per_topic_list\<close>).
\<close>

fun subtopics_loop ::
  "(dict list \<Rightarrow> error + dict) \<Rightarrow> topic_data \<Rightarrow>
   bool \<times> int \<times> (string \<times> subtopic_record) list \<Rightarrow>
   error + bool \<times> int \<times> (string \<times> subtopic_record) list" where
  "subtopics_loop dedup_claims [] st = Inr st"
| "subtopics_loop dedup_claims ((subtopic, sd) # rest) (claim_bound, per_topic_total, per_topic_list) =
     (case process_subtopic dedup_claims claim_bound sd of
        Inl e \<Rightarrow> Inl e
      | Inr (claim_bound', None) \<Rightarrow>
          subtopics_loop dedup_claims rest (claim_bound', per_topic_total + total sd, per_topic_list)
      | Inr (claim_bound', Some r) \<Rightarrow>
          subtopics_loop dedup_claims rest
            (claim_bound', per_topic_total + total sd, AList.update subtopic r per_topic_list))"

text \<open>
  The two places that sort by \<^verbatim>\<open>req.sort\<close> are an \<^verbatim>\<open>if\<close>/\<^verbatim>\<open>elif\<close> without
  \<^verbatim>\<open>else\<close>: with any other sort key the variable (\<^verbatim>\<open>sorted_subtopics\<close>, and
  \<^verbatim>\<open>full_sort_tree\<close> at the end) is never assigned, and reading it raises.
\<close>

definition sort_by_key ::
  "string \<Rightarrow> ('a \<Rightarrow> nat) \<Rightarrow> ('a \<Rightarrow> int) \<Rightarrow> (string \<times> 'a) list \<Rightarrow> error + (string \<times> 'a) list" where
  "sort_by_key sort_field n_speakers n_claims items =
     (if sort_field = ''numPeople'' then Inr (sorted_desc (\<lambda>x. int (n_speakers (snd x))) items)
      else if sort_field = ''numClaims'' then Inr (sorted_desc (\<lambda>x. n_claims (snd x)) items)
      else Inl UnboundLocalError)"

text \<open>\<^verbatim>\<open>set_topic_speakers = set_topic_speakers.union(c["speakers"])\<close> over the subtopics.\<close>

definition union_speakers :: "(string \<times> subtopic_record) list \<Rightarrow> json list" where
  "union_speakers per_topic_list =
     foldl (\<lambda>acc kv.
              foldl (\<lambda>a x. if key_of x \<in> set (map key_of a) then a else a @ [x]) acc
                (rec_speakers (snd kv)))
       [] per_topic_list"

text \<open>\<^verbatim>\<open>for topic, topic_data in claims_tree.items()\<close>; the state is (\<open>claim_bound\<close>, \<^verbatim>\<open>sorted_tree\<close>).\<close>

fun topics_loop ::
  "(dict list \<Rightarrow> error + dict) \<Rightarrow> string \<Rightarrow> claims_tree \<Rightarrow>
   bool \<times> (string \<times> topic_record) list \<Rightarrow> error + (string \<times> topic_record) list" where
  "topics_loop dedup_claims sort_field [] (claim_bound, sorted_tree) = Inr sorted_tree"
| "topics_loop dedup_claims sort_field ((topic, td) # rest) (claim_bound, sorted_tree) =
     (case subtopics_loop dedup_claims td (claim_bound, 0, []) of
        Inl e \<Rightarrow> Inl e
      | Inr (claim_bound', per_topic_total, per_topic_list) \<Rightarrow>
          (let set_topic_speakers = union_speakers per_topic_list
           in case sort_by_key sort_field count_speakers count_claims per_topic_list of
                Inl e \<Rightarrow> Inl e
              | Inr sorted_subtopics \<Rightarrow>
                  topics_loop dedup_claims sort_field rest
                    (claim_bound',
                     AList.update topic
                       \<lparr>topics = sorted_subtopics, speakers = set_topic_speakers,
                        topic_count_claims = per_topic_total,
                        topic_count_speakers = length set_topic_speakers\<rparr>
                       sorted_tree)))"

text \<open>The \<^verbatim>\<open>"data"\<close> field of the response of \<^verbatim>\<open>PUT /sort_claims_tree/\<close>.\<close>

definition sort_claims_tree ::
  "(dict list \<Rightarrow> error + dict) \<Rightarrow> claims_tree \<Rightarrow> string \<Rightarrow> error + (string \<times> topic_record) list" where
  "sort_claims_tree dedup_claims tree sort_field =
     (case topics_loop dedup_claims sort_field tree (False, []) of
        Inl e \<Rightarrow> Inl e
      | Inr sorted_tree \<Rightarrow>
          sort_by_key sort_field topic_count_speakers topic_count_claims sorted_tree)"

subsection \<open>The duplicate-folding scenario\<close>

text \<open>
  The subtopic \<open>Cats\<close> of the docstring of \<^verbatim>\<open>sort_claims_tree\<close>: two claims with the
  same text and different quotes, as Stage 2 builds them (\<^verbatim>\<open>claim\<close>, \<^verbatim>\<open>quote\<close>,
  \<^verbatim>\<open>topicName\<close>, \<^verbatim>\<open>subtopicName\<close>, then \<^verbatim>\<open>commentId\<close> and \<^verbatim>\<open>speaker\<close>), and the
  nesting \<^verbatim>\<open>{"claimId0": [], "claimId1": ["claimId0"]}\<close> returned for them.
\<close>

definition cats_claim0 :: dict where
  "cats_claim0 =
     [(''claim'', JStr ''Cats are the best pets.''), (''quote'', JStr ''I love cats.''),
      (''topicName'', JStr ''Pets''), (''subtopicName'', JStr ''Cats''),
      (''commentId'', JStr ''c1''), (''speaker'', JStr ''Alice'')]"

definition cats_claim1 :: dict where
  "cats_claim1 =
     [(''claim'', JStr ''Cats are the best pets.''), (''quote'', JStr ''I really really love cats''),
      (''topicName'', JStr ''Pets''), (''subtopicName'', JStr ''Cats''),
      (''commentId'', JStr ''c1''), (''speaker'', JStr ''Alice'')]"

definition cats_tree :: claims_tree where
  "cats_tree = [(''Pets'', [(''Cats'', \<lparr>total = 2, claims = [cats_claim0, cats_claim1]\<rparr>)])]"

definition cats_nesting :: "dict list \<Rightarrow> error + dict" where
  "cats_nesting cls =
     Inr [(''nesting'', JObj [(''claimId0'', JArr []), (''claimId1'', JArr [JStr ''claimId0''])])]"

text \<open>Responses whose nesting has a key that is not of the form \<^verbatim>\<open>claimId<k>\<close>.\<close>

definition nesting_without_Id :: "dict list \<Rightarrow> error + dict" where
  "nesting_without_Id cls = Inr [(''nesting'', JObj [(''claim0'', JArr [JStr ''claimId1''])])]"

definition nesting_without_number :: "dict list \<Rightarrow> error + dict" where
  "nesting_without_number cls = Inr [(''nesting'', JObj [(''myIdx'', JArr [JStr ''claimId1''])])]"

text \<open>
  \<open>\<Sigma> (1 + len(claim.duplicates))\<close> over the emitted claims of each subtopic, next to the
  \<^verbatim>\<open>counts.claims\<close> the record reports.
\<close>

definition folded_count :: "dict list \<Rightarrow> nat" where
  "folded_count cs = sum_list (map (\<lambda>c. 1 + num_duplicates c) cs)"

definition count_table :: "(string \<times> topic_record) list \<Rightarrow> (string \<times> string \<times> nat \<times> int) list" where
  "count_table sorted_tree =
     concat (map (\<lambda>(topic, tr).
       map (\<lambda>(subtopic, r). (topic, subtopic, folded_count (rec_claims r), count_claims r))
         (topics tr)) sorted_tree)"

section \<open>Stage 4: cruxes, the controversy matrix and the top pairs\<close>

subsection \<open>The speaker map\<close>

text \<open>\<^verbatim>\<open>str(i)\<close> for a non-negative integer.\<close>

fun str_nat :: "nat \<Rightarrow> string" where
  "str_nat n =
     (if n < 10 then [char_of (48 + n)] else str_nat (n div 10) @ [char_of (48 + n mod 10)])"

declare str_nat.simps [simp del]

text \<open>
  \<^verbatim>\<open>full_speaker_map\<close> of \<^verbatim>\<open>utils.py\<close>: the speakers of all claims of the tree
  (\<^verbatim>\<open>claim["speaker"]\<close> raises when the key is missing), as a sorted list without
  repetition, each mapped to its position written as a string. Speakers are strings,
  as \<^verbatim>\<open>Comment.speaker\<close> is; strings are ordered lexicographically by character.
\<close>

definition claim_speaker :: "dict \<Rightarrow> error + string" where
  "claim_speaker claim =
     (case map_of claim ''speaker'' of
        None \<Rightarrow> Inl KeyError
      | Some (JStr s) \<Rightarrow> Inr s
      | Some _ \<Rightarrow> Inl TypeError)"

definition tree_claims :: "claims_tree \<Rightarrow> dict list" where
  "tree_claims tree = concat (map (\<lambda>(topic, td). concat (map (\<lambda>(subtopic, sd). claims sd) td)) tree)"

definition full_speaker_map :: "claims_tree \<Rightarrow> error + (string \<times> string) list" where
  "full_speaker_map tree =
     (case map_err claim_speaker (tree_claims tree) of
        Inl e \<Rightarrow> Inl e
      | Inr all_speakers \<Rightarrow>
          Inr (map (\<lambda>(i, s). (s, str_nat i)) (enumerate 0 (sort (remdups all_speakers)))))"

text \<open>\<^verbatim>\<open>ids_to_speakers = {v: k for k, v in speaker_map.items()}\<close>\<close>

definition ids_to_speakers :: "(string \<times> string) list \<Rightarrow> (string \<times> string) list" where
  "ids_to_speakers speaker_map = foldl (\<lambda>m (k, v). AList.update v k m) [] speaker_map"

subsection \<open>One row of \<^verbatim>\<open>crux_claims\<close>\<close>

text \<open>
  The row that \<^verbatim>\<open>cruxes_from_tree\<close> appends for one crux object of the model, which
  is also the \<^verbatim>\<open>CruxRow\<close> of the response: \<^verbatim>\<open>agree\<close> and \<^verbatim>\<open>disagree\<close> hold the
  entries \<^verbatim>\<open>named_agree\<close> and \<^verbatim>\<open>named_disagree\<close>.
\<close>

record crux_row =
  cruxClaim :: json
  agree :: "string list"
  disagree :: "string list"
  explanation :: json

text \<open>\<^verbatim>\<open>a.split(":")[0]\<close> of an entry, which has to be a string.\<close>

definition entry_id :: "json \<Rightarrow> error + string" where
  "entry_id a =
     (case a of
        JStr s \<Rightarrow> (case py_split s '':'' of x # xs \<Rightarrow> Inr x | [] \<Rightarrow> Inl IndexError)
      | _ \<Rightarrow> Inl AttributeError)"

text \<open>\<^verbatim>\<open>a + ":" + ids_to_speakers[a]\<close>\<close>

definition named_id :: "(string \<times> string) list \<Rightarrow> string \<Rightarrow> error + string" where
  "named_id id_map a =
     (case map_of id_map a of None \<Rightarrow> Inl KeyError | Some name \<Rightarrow> Inr (a @ '':'' @ name))"

definition make_crux_row :: "(string \<times> string) list \<Rightarrow> dict \<Rightarrow> error + crux_row" where
  "make_crux_row speaker_map crux =
     (case map_of crux ''cruxClaim'' of
        None \<Rightarrow> Inl KeyError
      | Some crux_claim \<Rightarrow>
     (case map_of crux ''agree'' of
        None \<Rightarrow> Inl KeyError
      | Some agree_entries \<Rightarrow>
     (case map_of crux ''disagree'' of
        None \<Rightarrow> Inl KeyError
      | Some disagree_entries \<Rightarrow>
     (case iter_items agree_entries of
        Inl e \<Rightarrow> Inl e
      | Inr agree_items \<Rightarrow>
     (case map_err entry_id agree_items of
        Inl e \<Rightarrow> Inl e
      | Inr agree_ids \<Rightarrow>
     (case iter_items disagree_entries of
        Inl e \<Rightarrow> Inl e
      | Inr disagree_items \<Rightarrow>
     (case map_err entry_id disagree_items of
        Inl e \<Rightarrow> Inl e
      | Inr disagree_ids \<Rightarrow>
     (case map_err (named_id (ids_to_speakers speaker_map)) agree_ids of
        Inl e \<Rightarrow> Inl e
      | Inr named_agree \<Rightarrow>
     (case map_err (named_id (ids_to_speakers speaker_map)) disagree_ids of
        Inl e \<Rightarrow> Inl e
      | Inr named_disagree \<Rightarrow>
          Inr \<lparr>cruxClaim = crux_claim, agree = named_agree, disagree = named_disagree,
               explanation = (case map_of crux ''explanation'' of
                                Some x \<Rightarrow> x | None \<Rightarrow> JStr ''N/A'')\<rparr>)))))))))"

subsection \<open>The score table \<^verbatim>\<open>cont_mat\<close>\<close>

text \<open>
  For each row and each speaker label in sorted order: 1 when
  \<^verbatim>\<open>speaker_map[sl] + ":" + sl\<close> is in the row's agree list, 0.5 when it is in the
  disagree list, 0 otherwise. The numbers 0, 0.5 and 1 and their sums are exact in
  binary floating point, so they are rationals here. A row of \<^verbatim>\<open>cont_mat\<close> is the crux
  claim followed by the scores.
\<close>

definition labeled_speaker :: "(string \<times> string) list \<Rightarrow> string \<Rightarrow> string" where
  "labeled_speaker speaker_map sl =
     (case map_of speaker_map sl of Some i \<Rightarrow> i @ '':'' @ sl | None \<Rightarrow> '':'' @ sl)"

definition claim_scores :: "(string \<times> string) list \<Rightarrow> crux_row \<Rightarrow> rat list" where
  "claim_scores speaker_map row =
     map (\<lambda>sl. if labeled_speaker speaker_map sl \<in> set (agree row) then 1
               else if labeled_speaker speaker_map sl \<in> set (disagree row) then 1 / 2
               else 0)
       (sort (map fst speaker_map))"

definition score_table :: "(string \<times> string) list \<Rightarrow> crux_row list \<Rightarrow> (json \<times> rat list) list" where
  "score_table speaker_map crux_claims =
     map (\<lambda>row. (cruxClaim row, claim_scores speaker_map row)) crux_claims"

subsection \<open>\<^verbatim>\<open>controversy_matrix\<close>\<close>

text \<open>\<^verbatim>\<open>xs[i]\<close> for \<open>i \<ge> 0\<close>, which raises out of range.\<close>

definition nth_err :: "'a list \<Rightarrow> nat \<Rightarrow> error + 'a" where
  "nth_err xs i = (if i < length xs then Inr (xs ! i) else Inl IndexError)"

text \<open>\<^verbatim>\<open>cm[i][j] += v\<close>\<close>

definition bump :: "rat list list \<Rightarrow> nat \<Rightarrow> nat \<Rightarrow> rat \<Rightarrow> rat list list" where
  "bump cm i j v = cm[i := (cm ! i)[j := cm ! i ! j + v]]"

text \<open>The body of the innermost loop, for the cell \<open>(i, j)\<close> and its mirror.\<close>

definition add_controversy :: "rat \<Rightarrow> rat \<Rightarrow> nat \<Rightarrow> nat \<Rightarrow> rat list list \<Rightarrow> rat list list" where
  "add_controversy score other_score i j cm =
     (if score = other_score then cm
      else if score = 0 \<or> other_score = 0 then bump (bump cm i j (1 / 2)) j i (1 / 2)
      else bump (bump cm i j 1) j i 1)"

text \<open>\<^verbatim>\<open>for other_index, other_score in enumerate(other_scores)\<close>\<close>

fun others_loop :: "rat \<Rightarrow> nat \<Rightarrow> (nat \<times> rat) list \<Rightarrow> rat list list \<Rightarrow> rat list list" where
  "others_loop score claim_index [] cm = cm"
| "others_loop score claim_index ((other_index, other_score) # rest) cm =
     others_loop score claim_index rest
       (add_controversy score other_score claim_index (claim_index + other_index + 1) cm)"

text \<open>
  \<^verbatim>\<open>for score_index, score in enumerate(per_speaker_scores)\<close>: the other scores are
  read from the rows after \<open>claim_index\<close>, at position \<open>score_index + 1\<close> of the row,
  which is position \<open>score_index\<close> of its scores.
\<close>

fun scores_loop ::
  "(json \<times> rat list) list \<Rightarrow> nat \<Rightarrow> (nat \<times> rat) list \<Rightarrow> rat list list \<Rightarrow> error + rat list list" where
  "scores_loop cont_mat claim_index [] cm = Inr cm"
| "scores_loop cont_mat claim_index ((score_index, score) # rest) cm =
     (case map_err (\<lambda>item. nth_err (snd item) score_index) (drop (claim_index + 1) cont_mat) of
        Inl e \<Rightarrow> Inl e
      | Inr other_scores \<Rightarrow>
          scores_loop cont_mat claim_index rest
            (others_loop score claim_index (enumerate 0 other_scores) cm))"

text \<open>\<^verbatim>\<open>for claim_index, row in enumerate(cont_mat)\<close>\<close>

fun rows_loop ::
  "(json \<times> rat list) list \<Rightarrow> (nat \<times> json \<times> rat list) list \<Rightarrow> rat list list \<Rightarrow> error + rat list list" where
  "rows_loop cont_mat [] cm = Inr cm"
| "rows_loop cont_mat ((claim_index, row) # rest) cm =
     (case scores_loop cont_mat claim_index (enumerate 0 (snd row)) cm of
        Inl e \<Rightarrow> Inl e
      | Inr cm' \<Rightarrow> rows_loop cont_mat rest cm')"

definition controversy_matrix :: "(json \<times> rat list) list \<Rightarrow> error + rat list list" where
  "controversy_matrix cont_mat =
     rows_loop cont_mat (enumerate 0 cont_mat)
       (replicate (length cont_mat) (replicate (length cont_mat) 0))"

text \<open>
  The controversy that the specification assigns to one speaker and two cruxes: 0 for
  equal scores, 0.5 when the scores differ and one of them is 0, and 1 when they differ
  and both are non-zero.
\<close>

definition spec_controversy :: "rat \<Rightarrow> rat \<Rightarrow> rat" where
  "spec_controversy a b = (if a = b then 0 else if a = 0 \<or> b = 0 then 1 / 2 else 1)"

subsection \<open>\<^verbatim>\<open>top_k_cruxes\<close>\<close>

text \<open>
  \<^verbatim>\<open>math.ceil(math.sqrt(n))\<close> for the length of a list: the least \<open>k\<close> with
  \<open>n \<le> k\<^sup>2\<close>, found by search.
\<close>

definition ceil_sqrt :: "nat \<Rightarrow> nat" where
  "ceil_sqrt n = hd (filter (\<lambda>k. n \<le> k * k) [0..<Suc n])"

text \<open>The slice \<^verbatim>\<open>xs[:K]\<close>; a negative \<open>K\<close> counts from the end.\<close>

definition py_take :: "int \<Rightarrow> 'a list \<Rightarrow> 'a list" where
  "py_take K xs = (if 0 \<le> K then take (nat K) xs else take (length xs - nat (- K)) xs)"

text \<open>The list \<^verbatim>\<open>scores\<close> of \<^verbatim>\<open>[cont_mat[x][y], x, y]\<close> for \<open>x < y\<close>, row by row.\<close>

definition upper_triangle :: "rat list list \<Rightarrow> error + (rat \<times> nat \<times> nat) list" where
  "upper_triangle cont_mat =
     map_err (\<lambda>(x, y). case nth_err (cont_mat ! x) y of Inl e \<Rightarrow> Inl e | Inr s \<Rightarrow> Inr (s, x, y))
       (concat (map (\<lambda>x. map (\<lambda>y. (x, y)) [x + 1..<length cont_mat]) [0..<length cont_mat]))"

text \<open>\<^verbatim>\<open>all_scored_cruxes[:K]\<close>: the entries that are returned, with their indices.\<close>

definition top_k_entries :: "rat list list \<Rightarrow> nat \<Rightarrow> int \<Rightarrow> error + (rat \<times> nat \<times> nat) list" where
  "top_k_entries cont_mat n_cruxes top_k =
     (let K = (if top_k = 0 then min (int (ceil_sqrt n_cruxes)) 10 else top_k)
      in case upper_triangle cont_mat of
           Inl e \<Rightarrow> Inl e
         | Inr scores \<Rightarrow> Inr (py_take K (sorted_desc fst scores)))"

record 'a top_crux =
  score :: rat
  cruxA :: 'a
  cruxB :: 'a

definition top_k_cruxes :: "rat list list \<Rightarrow> 'a list \<Rightarrow> int \<Rightarrow> error + 'a top_crux list" where
  "top_k_cruxes cont_mat cruxes top_k =
     (case top_k_entries cont_mat (length cruxes) top_k of
        Inl e \<Rightarrow> Inl e
      | Inr entries \<Rightarrow>
          map_err (\<lambda>(s, x, y).
            case nth_err cruxes x of
              Inl e \<Rightarrow> Inl e
            | Inr a \<Rightarrow> (case nth_err cruxes y of
                          Inl e \<Rightarrow> Inl e
                        | Inr b \<Rightarrow> Inr \<lparr>score = s, cruxA = a, cruxB = b\<rparr>)) entries)"

subsection \<open>Shapes and scenarios for the matrix\<close>

text \<open>A matrix of \<open>n\<close> rows of length \<open>n\<close>.\<close>

definition dims :: "nat \<Rightarrow> rat list list \<Rightarrow> bool" where
  "dims n cm = (length cm = n \<and> (\<forall>r\<in>set cm. length r = n))"

text \<open>
  The score table of the specification's scenario: two cruxes, three speakers, the
  scores \<^verbatim>\<open>[[1, 0.5, 0], [0.5, 1, 0]]\<close>.
\<close>

definition scenario_scores :: "(json \<times> rat list) list" where
  "scenario_scores = [(JStr ''Cats are better than dogs.'', [1, 1 / 2, 0]),
                      (JStr ''Birds are good pets.'', [1 / 2, 1, 0])]"

text \<open>A controversy matrix over three cruxes, and the pairs returned for it with \<^verbatim>\<open>top_k = 0\<close>.\<close>

definition scenario_matrix :: "rat list list" where
  "scenario_matrix = [[0, 2, 1], [2, 0, 3 / 2], [1, 3 / 2, 0]]"

definition scenario_cruxes :: "string list" where
  "scenario_cruxes = [''Cats are better than dogs.'', ''Birds are good pets.'', ''Pets need a garden.'']"

definition scenario_top :: "string top_crux list" where
  "scenario_top =
     [\<lparr>score = 2, cruxA = ''Cats are better than dogs.'', cruxB = ''Birds are good pets.''\<rparr>,
      \<lparr>score = 3 / 2, cruxA = ''Birds are good pets.'', cruxB = ''Pets need a garden.''\<rparr>]"

subsection \<open>Entries of a crux and a scenario\<close>

text \<open>The part of an entry \<^verbatim>\<open>"<id>:<claimText>"\<close> before its first colon.\<close>

definition before_colon :: "string \<Rightarrow> string" where
  "before_colon s = takeWhile (\<lambda>c. c \<noteq> CHR '':'') s"

text \<open>
  A tree with one claim of \<open>Alice\<close> and one of \<open>Bob\<close>, its speaker map, a crux as
  the model returns it, with entries \<^verbatim>\<open>"<id>:<claimText>"\<close>, and a crux that lists
  the same speaker on both sides.
\<close>

definition pets_crux_tree :: claims_tree where
  "pets_crux_tree = [(''Pets'', [(''Cats'', \<lparr>total = 2, claims = [cats_claim0, dogs_claim]\<rparr>)])]"

definition pets_speaker_map :: "(string \<times> string) list" where
  "pets_speaker_map = [(''Alice'', ''0''), (''Bob'', ''1'')]"

definition pets_crux :: dict where
  "pets_crux =
     [(''cruxClaim'', JStr ''Cats are better pets than dogs.''),
      (''agree'', JArr [JStr ''0:Cats are the best pets.'']),
      (''disagree'', JArr [JStr ''1:Dogs are superior pets.'']),
      (''explanation'', JStr ''The speakers prefer different animals.'')]"

definition undecided_crux :: dict where
  "undecided_crux =
     [(''cruxClaim'', JStr ''Cats are better pets than dogs.''),
      (''agree'', JArr [JStr ''0:Cats are the best pets.'']),
      (''disagree'', JArr [JStr ''0:Cats are the best pets.'']),
      (''explanation'', JStr ''The first speaker could go either way.'')]"

section \<open>The JSON extractor\<close>

subsection \<open>\<^verbatim>\<open>json.loads\<close>\<close>

text \<open>
  The decoder of Python's \<^verbatim>\<open>json\<close> module on a \<^verbatim>\<open>str\<close>, in its default (strict)
  mode. A parser returns the value and the rest of the text, or raises:
  \<^verbatim>\<open>JSONDecodeError\<close> on malformed text, \<^verbatim>\<open>ValueError\<close> on an integer of more
  than 4300 digits. Nested values are read with a fuel that bounds the depth of the
  calls; running out of it is reported as \<^verbatim>\<open>RecursionError\<close>, apart from malformed
  text. (Python raises \<^verbatim>\<open>RecursionError\<close> when the nesting is deeper than the
  recursion limit of the interpreter allows at the call, a bound that depends on the
  running program and that the model does not fix.)
\<close>

datatype 'a parsed = Parsed 'a string | Raised error

definition is_json_ws :: "char \<Rightarrow> bool" where
  "is_json_ws c = ((of_char c :: nat) \<in> {32, 9, 10, 13})"

definition skip_ws :: "string \<Rightarrow> string" where
  "skip_ws s = dropWhile is_json_ws s"

definition hex_val :: "char \<Rightarrow> nat option" where
  "hex_val c =
     (let n = (of_char c :: nat)
      in if 48 \<le> n \<and> n \<le> 57 then Some (n - 48)
         else if 97 \<le> n \<and> n \<le> 102 then Some (n - 87)
         else if 65 \<le> n \<and> n \<le> 70 then Some (n - 55)
         else None)"

definition hex4 :: "char \<Rightarrow> char \<Rightarrow> char \<Rightarrow> char \<Rightarrow> nat option" where
  "hex4 a b c d =
     (case (hex_val a, hex_val b, hex_val c, hex_val d) of
        (Some w, Some x, Some y, Some z) \<Rightarrow> Some (((w * 16 + x) * 16 + y) * 16 + z)
      | _ \<Rightarrow> None)"

definition simple_escape :: "char \<Rightarrow> char option" where
  \<open>simple_escape e =
     (if e = CHR ''"'' then Some (CHR ''"'')
      else if e = CHR 0x5C then Some (CHR 0x5C)
      else if e = CHR ''/'' then Some (CHR ''/'')
      else if e = CHR ''b'' then Some (CHR 0x08)
      else if e = CHR ''f'' then Some (CHR 0x0C)
      else if e = CHR ''n'' then Some (CHR 0x0A)
      else if e = CHR ''r'' then Some (CHR 0x0D)
      else if e = CHR ''t'' then Some (CHR 0x09)
      else None)\<close>

text \<open>
  The body of a string after its opening quote: up to the closing quote, with the
  escapes decoded; a control character or an unknown escape is malformed. An escape
  \<^verbatim>\<open>\uXXXX\<close> is the code point \<open>XXXX\<close>, which a \<^typ>\<open>char\<close> holds when it is below
  256 (a surrogate, alone or in a pair, is above).
\<close>

fun scan_string :: "string \<Rightarrow> string \<Rightarrow> string parsed" where
  \<open>scan_string acc [] = Raised JSONDecodeError\<close>
| \<open>scan_string acc (c # cs) =
     (if c = CHR ''"'' then Parsed acc cs
      else if c = CHR 0x5C then
        (case cs of
           [] \<Rightarrow> Raised JSONDecodeError
         | e # es \<Rightarrow>
             if e = CHR ''u'' then
               (case es of
                  h1 # h2 # h3 # h4 # rest \<Rightarrow>
                    (case hex4 h1 h2 h3 h4 of
                       None \<Rightarrow> Raised JSONDecodeError
                     | Some uni \<Rightarrow>
                         if uni < 256 then scan_string (acc @ [char_of uni]) rest
                         else Raised CodePointAbove255)
                | _ \<Rightarrow> Raised JSONDecodeError)
             else
               (case simple_escape e of
                  None \<Rightarrow> Raised JSONDecodeError
                | Some x \<Rightarrow> scan_string (acc @ [x]) es))
      else if (of_char c :: nat) < 32 then Raised JSONDecodeError
      else scan_string (acc @ [c]) cs)\<close>

text \<open>
  The \<^verbatim>\<open>float\<close> nearest to a rational number \<open>x\<close>, as the conversion of a decimal
  literal gives it: with \<^verbatim>\<open>2^e <= |x| < 2^(e+1)\<close>, the multiple of \<^verbatim>\<open>2^(e-52)\<close> (of
  \<^verbatim>\<open>2^-1074\<close> below the normal range) nearest to \<open>x\<close>, the even one of two that are
  equally near. It is \<open>None\<close> when that multiple is \<^verbatim>\<open>2^1024\<close> or more, where Python
  gives an infinity. The sign of a zero is not kept.
\<close>

function bit_len :: "int \<Rightarrow> nat" where
  "bit_len n = (if n \<le> 0 then 0 else Suc (bit_len (n div 2)))"
  by pat_completeness auto
termination
  by (relation "measure nat") auto

declare bit_len.simps [simp del]

definition pow2 :: "int \<Rightarrow> rat" where
  "pow2 e = (if 0 \<le> e then 2 ^ nat e else 1 / 2 ^ nat (- e))"

definition round_even :: "rat \<Rightarrow> int" where
  "round_even x =
     (let f = \<lfloor>x\<rfloor>; d = x - of_int f
      in if d < 1 / 2 then f else if 1 / 2 < d then f + 1 else if even f then f else f + 1)"

definition to_double :: "rat \<Rightarrow> rat option" where
  "to_double x =
     (if x = 0 then Some 0
      else
        (let a = \<bar>x\<bar>;
             e0 = int (bit_len (fst (quotient_of a))) - int (bit_len (snd (quotient_of a)));
             e = (if pow2 e0 \<le> a then e0 else e0 - 1);
             u = pow2 (max e (- 1022) - 52);
             r = of_int (round_even (a / u)) * u
         in if pow2 1024 \<le> r then None else Some (if x < 0 then - r else r)))"

text \<open>
  A number: \<^verbatim>\<open>-?(0|[1-9]\d*)(\.\d+)?([eE][-+]?\d+)?\<close>. It is an \<^verbatim>\<open>int\<close> without
  fraction and exponent, which raises \<^verbatim>\<open>ValueError\<close> beyond 4300 digits, and the
  \<^verbatim>\<open>float\<close> nearest to its value otherwise.
\<close>

definition digits_int :: "string \<Rightarrow> int" where
  "digits_int ds = foldl (\<lambda>n d. n * 10 + digit_val d) 0 ds"

definition scan_int_part :: "string \<Rightarrow> (string \<times> string) option" where
  "scan_int_part s =
     (case s of
        [] \<Rightarrow> None
      | c # cs \<Rightarrow>
          if c = CHR ''0'' then Some ([c], cs)
          else if is_digit c then Some (c # takeWhile is_digit cs, dropWhile is_digit cs)
          else None)"

definition scan_frac :: "string \<Rightarrow> (string \<times> string) option" where
  "scan_frac s =
     (case s of
        c # d # ds \<Rightarrow>
          if c = CHR ''.'' \<and> is_digit d then Some (d # takeWhile is_digit ds, dropWhile is_digit ds)
          else None
      | _ \<Rightarrow> None)"

definition scan_exp :: "string \<Rightarrow> (int \<times> string) option" where
  "scan_exp s =
     (case s of
        e # rest \<Rightarrow>
          if e = CHR ''e'' \<or> e = CHR ''E'' then
            (case rest of
               c # cs \<Rightarrow>
                 if (c = CHR ''-'' \<or> c = CHR ''+'') \<and> cs \<noteq> [] \<and> is_digit (hd cs) then
                   Some ((if c = CHR ''-'' then - 1 else 1) * digits_int (takeWhile is_digit cs),
                         dropWhile is_digit cs)
                 else if is_digit c then
                   Some (digits_int (takeWhile is_digit rest), dropWhile is_digit rest)
                 else None
             | [] \<Rightarrow> None)
          else None
      | [] \<Rightarrow> None)"

definition pow10 :: "int \<Rightarrow> rat" where
  "pow10 e = (if 0 \<le> e then 10 ^ nat e else 1 / 10 ^ nat (- e))"

definition scan_number :: "string \<Rightarrow> (json parsed) option" where
  "scan_number s =
     (let (neg, s1) = (case s of c # cs \<Rightarrow> if c = CHR ''-'' then (True, cs) else (False, s)
                               | [] \<Rightarrow> (False, s))
      in case scan_int_part s1 of
           None \<Rightarrow> None
         | Some (ip, s2) \<Rightarrow>
             (let (fp, s3) = (case scan_frac s2 of Some (f, r) \<Rightarrow> (Some f, r) | None \<Rightarrow> (None, s2));
                  (ex, s4) = (case scan_exp s3 of Some (e, r) \<Rightarrow> (Some e, r) | None \<Rightarrow> (None, s3))
              in if fp = None \<and> ex = None
                 then
                   (if length ip > 4300 then Some (Raised ValueError)
                    else Some (Parsed (JInt ((if neg then - 1 else 1) * digits_int ip)) s4))
                 else
                   (let f = (case fp of Some f \<Rightarrow> f | None \<Rightarrow> []);
                        e = (case ex of Some e \<Rightarrow> e | None \<Rightarrow> 0);
                        mag = (of_int (digits_int ip) + of_int (digits_int f) / 10 ^ length f) * pow10 e
                    in case to_double mag of
                         Some d \<Rightarrow> Some (Parsed (JFloat (if neg then - d else d)) s4)
                       | None \<Rightarrow>
                           Some (Parsed (JNonFinite (if neg then ''-Infinity'' else ''Infinity'')) s4))))"

text \<open>The literals, then numbers.\<close>

definition scan_atom :: "string \<Rightarrow> json parsed" where
  "scan_atom s =
     (if prefix ''null'' s then Parsed JNull (drop 4 s)
      else if prefix ''true'' s then Parsed (JBool True) (drop 4 s)
      else if prefix ''false'' s then Parsed (JBool False) (drop 5 s)
      else case scan_number s of
             Some r \<Rightarrow> r
           | None \<Rightarrow>
               if prefix ''NaN'' s then Parsed (JNonFinite ''NaN'') (drop 3 s)
               else if prefix ''Infinity'' s then Parsed (JNonFinite ''Infinity'') (drop 8 s)
               else if prefix ''-Infinity'' s then Parsed (JNonFinite ''-Infinity'') (drop 9 s)
               else Raised JSONDecodeError)"

text \<open>
  A value at the start of \<open>s\<close> (the callers skip white space), the elements of an
  array after \<^verbatim>\<open>[\<close> or a comma, and the members of an object at the quote of a key.
  A repeated key keeps its first place and takes the last value, as a \<^verbatim>\<open>dict\<close> does.
\<close>

fun parse_value :: "nat \<Rightarrow> string \<Rightarrow> json parsed"
  and parse_elems :: "nat \<Rightarrow> json list \<Rightarrow> string \<Rightarrow> json parsed"
  and parse_members :: "nat \<Rightarrow> dict \<Rightarrow> string \<Rightarrow> json parsed" where
  \<open>parse_value 0 s = Raised RecursionError\<close>
| \<open>parse_value (Suc fuel) s =
     (case s of
        [] \<Rightarrow> Raised JSONDecodeError
      | c # cs \<Rightarrow>
          if c = CHR ''"'' then
            (case scan_string [] cs of
               Raised e \<Rightarrow> Raised e
             | Parsed str rest \<Rightarrow> Parsed (JStr str) rest)
          else if c = CHR ''{'' then
            (case skip_ws cs of
               [] \<Rightarrow> Raised JSONDecodeError
             | d # ds \<Rightarrow>
                 if d = CHR ''}'' then Parsed (JObj []) ds
                 else parse_members fuel [] (d # ds))
          else if c = CHR ''['' then
            (case skip_ws cs of
               [] \<Rightarrow> Raised JSONDecodeError
             | d # ds \<Rightarrow>
                 if d = CHR '']'' then Parsed (JArr []) ds
                 else parse_elems fuel [] (d # ds))
          else scan_atom s)\<close>
| \<open>parse_elems 0 acc s = Raised RecursionError\<close>
| \<open>parse_elems (Suc fuel) acc s =
     (case parse_value fuel s of
        Parsed v rest \<Rightarrow>
          (case skip_ws rest of
             [] \<Rightarrow> Raised JSONDecodeError
           | d # ds \<Rightarrow>
               if d = CHR '']'' then Parsed (JArr (acc @ [v])) ds
               else if d = CHR '','' then parse_elems fuel (acc @ [v]) (skip_ws ds)
               else Raised JSONDecodeError)
      | Raised e \<Rightarrow> Raised e)\<close>
| \<open>parse_members 0 acc s = Raised RecursionError\<close>
| \<open>parse_members (Suc fuel) acc s =
     (case s of
        [] \<Rightarrow> Raised JSONDecodeError
      | q # qs \<Rightarrow>
          if q \<noteq> CHR ''"'' then Raised JSONDecodeError
          else
            (case scan_string [] qs of
               Raised e \<Rightarrow> Raised e
             | Parsed key rest \<Rightarrow>
                 (case skip_ws rest of
                    [] \<Rightarrow> Raised JSONDecodeError
                  | c # cs \<Rightarrow>
                      if c \<noteq> CHR '':'' then Raised JSONDecodeError
                      else
                        (case parse_value fuel (skip_ws cs) of
                           Parsed v rest' \<Rightarrow>
                             (case skip_ws rest' of
                                [] \<Rightarrow> Raised JSONDecodeError
                              | d # ds \<Rightarrow>
                                  if d = CHR ''}'' then Parsed (JObj (AList.update key v acc)) ds
                                  else if d = CHR '','' then
                                    parse_members fuel (AList.update key v acc) (skip_ws ds)
                                  else Raised JSONDecodeError)
                         | Raised e \<Rightarrow> Raised e))))\<close>

text \<open>
  \<^verbatim>\<open>json.loads(s)\<close>: white space, one value, white space, and nothing else. The
  fuel is more than twice the length of the text.
\<close>

definition json_loads :: "string \<Rightarrow> error + json" where
  "json_loads s =
     (case parse_value (2 * length s + 2) (skip_ws s) of
        Parsed v rest \<Rightarrow> if skip_ws rest = [] then Inr v else Inl JSONDecodeError
      | Raised e \<Rightarrow> Inl e)"

subsection \<open>\<^verbatim>\<open>json.dumps\<close>\<close>

text \<open>
  The default serialisation (separators \<^verbatim>\<open>", "\<close> and \<^verbatim>\<open>": "\<close>, every character
  outside printable ASCII escaped). It is \<open>None\<close> for a value that holds a finite
  \<^verbatim>\<open>float\<close>, whose text the model does not give, or an \<^verbatim>\<open>int\<close> of more than 4300
  digits, whose conversion raises.
\<close>

definition hex_digit :: "nat \<Rightarrow> char" where
  "hex_digit n = (if n < 10 then char_of (48 + n) else char_of (87 + n))"

definition dump_char :: "char \<Rightarrow> string option" where
  \<open>dump_char c =
     (let n = (of_char c :: nat)
      in if c = CHR ''"'' then Some [CHR 0x5C, CHR ''"'']
         else if c = CHR 0x5C then Some [CHR 0x5C, CHR 0x5C]
         else if c = CHR 0x0A then Some [CHR 0x5C, CHR ''n'']
         else if c = CHR 0x0D then Some [CHR 0x5C, CHR ''r'']
         else if c = CHR 0x09 then Some [CHR 0x5C, CHR ''t'']
         else if c = CHR 0x08 then Some [CHR 0x5C, CHR ''b'']
         else if c = CHR 0x0C then Some [CHR 0x5C, CHR ''f'']
         else if 32 \<le> n \<and> n \<le> 126 then Some [c]
         else
           Some ([CHR 0x5C, CHR ''u'', CHR ''0'', CHR ''0'', hex_digit (n div 16), hex_digit (n mod 16)]))\<close>

fun concat_options :: "'a list option list \<Rightarrow> 'a list option" where
  "concat_options [] = Some []"
| "concat_options (None # xs) = None"
| "concat_options (Some x # xs) = map_option (\<lambda>r. x @ r) (concat_options xs)"

definition dump_string :: "string \<Rightarrow> string option" where
  \<open>dump_string s = map_option (\<lambda>body. [CHR ''"''] @ body @ [CHR ''"'']) (concat_options (map dump_char s))\<close>

text \<open>\<^verbatim>\<open>str(i)\<close> for an integer.\<close>

definition str_int :: "int \<Rightarrow> string" where
  "str_int i = (if i < 0 then CHR ''-'' # str_nat (nat (- i)) else str_nat (nat i))"

text \<open>The pieces of a list, joined by a separator.\<close>

fun join_options :: "string \<Rightarrow> string option list \<Rightarrow> string option" where
  "join_options sep [] = Some []"
| "join_options sep [x] = x"
| "join_options sep (x # y # ys) =
     (case x of
        None \<Rightarrow> None
      | Some a \<Rightarrow> map_option (\<lambda>r. a @ sep @ r) (join_options sep (y # ys)))"

function json_dumps :: "json \<Rightarrow> string option" where
  "json_dumps JNull = Some ''null''"
| "json_dumps (JBool b) = Some (if b then ''true'' else ''false'')"
| "json_dumps (JInt i) = (if length (str_nat (nat \<bar>i\<bar>)) > 4300 then None else Some (str_int i))"
| "json_dumps (JFloat r) = None"
| "json_dumps (JNonFinite l) = Some l"
| "json_dumps (JStr s) = dump_string s"
| "json_dumps (JArr xs) =
     map_option (\<lambda>body. ''['' @ body @ '']'') (join_options '', '' (map json_dumps xs))"
| "json_dumps (JObj kvs) =
     map_option (\<lambda>body. ''{'' @ body @ ''}'')
       (join_options '', ''
          (map (\<lambda>kv. case dump_string (fst kv) of
                        None \<Rightarrow> None
                      | Some k \<Rightarrow> map_option (\<lambda>v. k @ '': '' @ v) (json_dumps (snd kv))) kvs))"
  by pat_completeness auto
termination
proof (relation "measure size")
  show "wf (measure size)" by simp
next
  fix xs :: "json list" and x assume "x \<in> set xs"
  then have "size x < Suc (size_list size xs)" by (induction xs) auto
  then show "(x, JArr xs) \<in> measure size" by simp
next
  fix kvs :: "(string \<times> json) list" and kv assume "kv \<in> set kvs"
  then have "size (snd kv) < size (JObj kvs)"
    by (induction kvs) auto
  then show "(snd kv, JObj kvs) \<in> measure size" by simp
qed

subsection \<open>Regular expressions of \<^verbatim>\<open>re\<close>\<close>

text \<open>
  The patterns of the extractor use literals, \<^verbatim>\<open>.\<close> under \<^verbatim>\<open>re.DOTALL\<close>,
  character sets, \<^verbatim>\<open>\s\<close>, alternatives, \<^verbatim>\<open>?\<close>, \<^verbatim>\<open>*\<close> and \<^verbatim>\<open>*?\<close>, and
  one capturing group.
\<close>

datatype regex =
    Eps
  | Lit char
  | AnyChar
  | OneOf "char list"
  | NoneOf "char list"
  | Space
  | Seq regex regex
  | Alt regex regex
  | Opt regex
  | Star regex
  | LazyStar regex

text \<open>
  \<open>ms r s\<close> lists what can remain of \<open>s\<close> after a match of \<open>r\<close> at its start, in
  the order in which a backtracking matcher tries the matches: a greedy operator
  first takes one more repetition, a lazy one first stops. A repetition that consumes
  nothing is not repeated.
\<close>

function ms :: "regex \<Rightarrow> string \<Rightarrow> string list" where
  "ms Eps s = [s]"
| "ms (Lit c) s = (case s of [] \<Rightarrow> [] | x # xs \<Rightarrow> if x = c then [xs] else [])"
| "ms AnyChar s = (case s of [] \<Rightarrow> [] | x # xs \<Rightarrow> [xs])"
| "ms (OneOf cs) s = (case s of [] \<Rightarrow> [] | x # xs \<Rightarrow> if x \<in> set cs then [xs] else [])"
| "ms (NoneOf cs) s = (case s of [] \<Rightarrow> [] | x # xs \<Rightarrow> if x \<in> set cs then [] else [xs])"
| "ms Space s = (case s of [] \<Rightarrow> [] | x # xs \<Rightarrow> if is_space x then [xs] else [])"
| "ms (Seq a b) s = concat (map (ms b) (ms a s))"
| "ms (Alt a b) s = ms a s @ ms b s"
| "ms (Opt a) s = ms a s @ [s]"
| "ms (Star a) s =
     concat (map (\<lambda>s'. if length s' < length s then ms (Star a) s' else []) (ms a s)) @ [s]"
| "ms (LazyStar a) s =
     s # concat (map (\<lambda>s'. if length s' < length s then ms (LazyStar a) s' else []) (ms a s))"
  by pat_completeness auto
termination
  by (relation "inv_image (less_than <*lex*> less_than) (\<lambda>(r, s). (size r, length s))") auto

text \<open>A literal string, and a literal string under \<^verbatim>\<open>re.IGNORECASE\<close>.\<close>

definition lit :: "string \<Rightarrow> regex" where
  "lit s = foldr (\<lambda>c r. Seq (Lit c) r) s Eps"

definition upper_char :: "char \<Rightarrow> char" where
  "upper_char c =
     (if 97 \<le> (of_char c :: nat) \<and> (of_char c :: nat) \<le> 122 then char_of ((of_char c :: nat) - 32)
      else c)"

definition lit_ci :: "string \<Rightarrow> regex" where
  "lit_ci s = foldr (\<lambda>c r. Seq (OneOf [lower_char c, upper_char c]) r) s Eps"

text \<open>
  A pattern with its one group: what stands before the group, the group, and what
  stands after it.
\<close>

record pattern =
  before_group :: regex
  group :: regex
  after_group :: regex

text \<open>
  The first match of the pattern at the start of \<open>s\<close>: the text of the group and
  what remains of \<open>s\<close> after the whole match.
\<close>

definition match_here :: "pattern \<Rightarrow> string \<Rightarrow> (string \<times> string) option" where
  "match_here p s =
     (case concat (map (\<lambda>r1.
             concat (map (\<lambda>r2. map (\<lambda>r3. (take (length r1 - length r2) r1, r3))
                                  (ms (after_group p) r2))
                       (ms (group p) r1)))
           (ms (before_group p) s)) of
        [] \<Rightarrow> None
      | m # others \<Rightarrow> Some m)"

text \<open>\<^verbatim>\<open>re.search(pattern, s).group(1)\<close>: the leftmost match.\<close>

fun re_search :: "pattern \<Rightarrow> string \<Rightarrow> (string \<times> string) option" where
  "re_search p [] = match_here p []"
| "re_search p (c # cs) =
     (case match_here p (c # cs) of Some m \<Rightarrow> Some m | None \<Rightarrow> re_search p cs)"

text \<open>
  \<^verbatim>\<open>re.findall(pattern, s)\<close> for a pattern with one group: the groups of the
  matches, which do not overlap, from left to right. After an empty match the search
  moves on by one character.
\<close>

function re_findall :: "pattern \<Rightarrow> string \<Rightarrow> string list" where
  "re_findall p s =
     (case re_search p s of
        None \<Rightarrow> []
      | Some (g, rest) \<Rightarrow>
          if length rest < length s then g # re_findall p rest
          else (case s of [] \<Rightarrow> [g] | c # cs \<Rightarrow> g # re_findall p cs))"
  by pat_completeness auto
termination
  by (relation "measure (\<lambda>(p, s). length s)") auto

declare re_findall.simps [simp del]

subsection \<open>\<^verbatim>\<open>clean_json_comments\<close>\<close>

text \<open>
  The scan of one line for \<^verbatim>\<open>//\<close> outside a string: \<open>i\<close> is the index of the head
  of the rest of the line.
\<close>

fun find_comment :: "bool \<Rightarrow> bool \<Rightarrow> nat \<Rightarrow> string \<Rightarrow> nat option" where
  \<open>find_comment in_string escape_next i [] = None\<close>
| \<open>find_comment in_string escape_next i (c # cs) =
     (if escape_next then find_comment in_string False (Suc i) cs
      else if c = CHR 0x5C then find_comment in_string True (Suc i) cs
      else if c = CHR ''"'' then find_comment (\<not> in_string) False (Suc i) cs
      else if \<not> in_string \<and> c = CHR ''/'' \<and> (case cs of [] \<Rightarrow> False | d # ds \<Rightarrow> d = CHR ''/'')
      then Some i
      else find_comment in_string False (Suc i) cs)\<close>

definition py_rstrip :: "string \<Rightarrow> string" where
  "py_rstrip s = rev (dropWhile is_space (rev s))"

definition clean_line :: "string \<Rightarrow> string" where
  "clean_line line =
     (case find_comment False False 0 line of
        None \<Rightarrow> line
      | Some comment_pos \<Rightarrow> py_rstrip (take comment_pos line))"

text \<open>\<^verbatim>\<open>sep.join(xs)\<close>\<close>

fun py_join :: "string \<Rightarrow> string list \<Rightarrow> string" where
  "py_join sep [] = []"
| "py_join sep [x] = x"
| "py_join sep (x # y # ys) = x @ sep @ py_join sep (y # ys)"

definition clean_json_comments :: "string \<Rightarrow> string" where
  "clean_json_comments json_str =
     py_join [CHR 0x0A]
       (filter (\<lambda>line. py_strip line \<noteq> []) (map clean_line (py_split json_str [CHR 0x0A])))"

subsection \<open>The strategies\<close>

text \<open>
  A strategy returns the parsed value or \<^verbatim>\<open>None\<close>; the caller goes on when the
  result is not truthy, and an empty \<^verbatim>\<open>dict\<close> or list is not. An exception other
  than \<^verbatim>\<open>JSONDecodeError\<close> is not caught.
\<close>

definition truthy :: "json \<Rightarrow> bool" where
  "truthy v =
     (case v of
        JNull \<Rightarrow> False
      | JBool b \<Rightarrow> b
      | JInt i \<Rightarrow> i \<noteq> 0
      | JFloat r \<Rightarrow> r \<noteq> 0
      | JNonFinite l \<Rightarrow> True
      | JStr s \<Rightarrow> s \<noteq> []
      | JArr xs \<Rightarrow> xs \<noteq> []
      | JObj kvs \<Rightarrow> kvs \<noteq> [])"

text \<open>
  \<^verbatim>\<open>try: return json.loads(t)\<close>, and on \<^verbatim>\<open>JSONDecodeError\<close> the same on the text
  without comments; \<open>None\<close> when both fail to decode.
\<close>

definition loads_or_cleaned :: "string \<Rightarrow> error + json option" where
  "loads_or_cleaned t =
     (case json_loads t of
        Inr v \<Rightarrow> Inr (Some v)
      | Inl e \<Rightarrow>
          if e = JSONDecodeError then
            (case json_loads (clean_json_comments t) of
               Inr v \<Rightarrow> Inr (Some v)
             | Inl e' \<Rightarrow> if e' = JSONDecodeError then Inr None else Inl e')
          else Inl e)"

text \<open>\<^verbatim>\<open>(\{"claims":\s*\[.*?\]\s*\})\<close>\<close>

definition claims_pattern :: pattern where
  \<open>claims_pattern =
     \<lparr>before_group = Eps,
      group = Seq (lit ''{"claims":'') (Seq (Star Space) (Seq (Lit CHR ''['')
                (Seq (LazyStar AnyChar) (Seq (Lit CHR '']'') (Seq (Star Space) (Lit CHR ''}'')))))),
      after_group = Eps\<rparr>\<close>

text \<open>\<^verbatim>\<open>```(?:json)?\s*(\{.*?\})\s*```\<close>\<close>

definition markdown_pattern :: pattern where
  \<open>markdown_pattern =
     \<lparr>before_group = Seq (lit ''```'') (Seq (Opt (lit ''json'')) (Star Space)),
      group = Seq (Lit CHR ''{'') (Seq (LazyStar AnyChar) (Lit CHR ''}'')),
      after_group = Seq (Star Space) (lit ''```'')\<rparr>\<close>

text \<open>\<^verbatim>\<open></think>\s*(\{.*\})\<close>\<close>

definition think_pattern :: pattern where
  \<open>think_pattern =
     \<lparr>before_group = Seq (lit ''</think>'') (Star Space),
      group = Seq (Lit CHR ''{'') (Seq (Star AnyChar) (Lit CHR ''}'')),
      after_group = Eps\<rparr>\<close>

text \<open>\<^verbatim>\<open>(\{"taxonomy".*?\}\s*\]?\s*\})\<close>\<close>

definition taxonomy_pattern :: pattern where
  \<open>taxonomy_pattern =
     \<lparr>before_group = Eps,
      group = Seq (lit ''{"taxonomy"'') (Seq (LazyStar AnyChar) (Seq (Lit CHR ''}'')
                (Seq (Star Space) (Seq (Opt (Lit CHR '']'')) (Seq (Star Space) (Lit CHR ''}'')))))),
      after_group = Eps\<rparr>\<close>

text \<open>\<^verbatim>\<open>(\{[^{}]*"taxonomy"[^{}]*\[.*?\]\s*\})\<close>\<close>

definition partial_taxonomy_pattern :: pattern where
  \<open>partial_taxonomy_pattern =
     \<lparr>before_group = Eps,
      group = Seq (Lit CHR ''{'') (Seq (Star (NoneOf ''{}'')) (Seq (lit ''"taxonomy"'')
                (Seq (Star (NoneOf ''{}'')) (Seq (Lit CHR ''['') (Seq (LazyStar AnyChar)
                (Seq (Lit CHR '']'') (Seq (Star Space) (Lit CHR ''}'')))))))),
      after_group = Eps\<rparr>\<close>

text \<open>\<^verbatim>\<open>(?:output|result|JSON|taxonomy|claims):\s*(\{.*?\})\<close> with \<^verbatim>\<open>re.IGNORECASE\<close>\<close>

definition text_json_pattern :: pattern where
  \<open>text_json_pattern =
     \<lparr>before_group =
        Seq (Alt (lit_ci ''output'') (Alt (lit_ci ''result'') (Alt (lit_ci ''JSON'')
               (Alt (lit_ci ''taxonomy'') (lit_ci ''claims'')))))
          (Seq (Lit CHR '':'') (Star Space)),
      group = Seq (Lit CHR ''{'') (Seq (LazyStar AnyChar) (Lit CHR ''}'')),
      after_group = Eps\<rparr>\<close>

text \<open>\<^verbatim>\<open>"claims" in obj and isinstance(obj["claims"], list)\<close>, for a decoded object.\<close>

definition claims_list :: "json \<Rightarrow> json list option" where
  "claims_list obj =
     (case obj of
        JObj d \<Rightarrow> (case map_of d ''claims'' of Some (JArr xs) \<Rightarrow> Some xs | _ \<Rightarrow> None)
      | _ \<Rightarrow> None)"

text \<open>
  The loop of \<^verbatim>\<open>extract_multiple_json_objects\<close> over the matches: a match that
  does not decode is skipped.
\<close>

fun collect_claims :: "string list \<Rightarrow> json list \<Rightarrow> error + json list" where
  "collect_claims [] all_claims = Inr all_claims"
| "collect_claims (m # matches) all_claims =
     (case json_loads (py_strip m) of
        Inr obj \<Rightarrow>
          collect_claims matches
            (case claims_list obj of Some xs \<Rightarrow> all_claims @ xs | None \<Rightarrow> all_claims)
      | Inl e \<Rightarrow> if e = JSONDecodeError then collect_claims matches all_claims else Inl e)"

definition extract_multiple_json_objects :: "string \<Rightarrow> error + json option" where
  "extract_multiple_json_objects content =
     (let matches = re_findall claims_pattern content
      in if length matches > 1 then
           (case collect_claims matches [] of
              Inl e \<Rightarrow> Inl e
            | Inr all_claims \<Rightarrow>
                if all_claims \<noteq> [] then Inr (Some (JObj [(''claims'', JArr all_claims)]))
                else Inr None)
         else Inr None)"

definition extract_json_from_markdown :: "string \<Rightarrow> error + json option" where
  "extract_json_from_markdown content =
     (case re_search markdown_pattern content of
        None \<Rightarrow> Inr None
      | Some (g, rest) \<Rightarrow> loads_or_cleaned (py_strip g))"

definition extract_json_after_think_tags :: "string \<Rightarrow> error + json option" where
  "extract_json_after_think_tags content =
     (case re_search think_pattern content of
        None \<Rightarrow> Inr None
      | Some (g, rest) \<Rightarrow> loads_or_cleaned (py_strip g))"

text \<open>\<^verbatim>\<open>extract_json_by_pattern\<close>; \<open>for_taxonomy\<close> is \<^verbatim>\<open>field_name == "taxonomy"\<close>.\<close>

definition extract_json_by_pattern :: "string \<Rightarrow> pattern \<Rightarrow> bool \<Rightarrow> error + json option" where
  "extract_json_by_pattern content p for_taxonomy =
     (case re_search p content of
        None \<Rightarrow> Inr None
      | Some (g, rest) \<Rightarrow>
          (let json_content = py_strip g
           in loads_or_cleaned
                (if for_taxonomy \<and> \<not> suffix ''}'' json_content then json_content @ ''}''
                 else json_content)))"

definition extract_json_after_text :: "string \<Rightarrow> error + json option" where
  "extract_json_after_text content =
     (case re_search text_json_pattern content of
        None \<Rightarrow> Inr None
      | Some (g, rest) \<Rightarrow>
          (case json_loads (py_strip g) of
             Inr v \<Rightarrow> Inr (Some v)
           | Inl e \<Rightarrow> if e = JSONDecodeError then Inr None else Inl e))"

subsection \<open>\<^verbatim>\<open>repair_malformed_json\<close>\<close>

text \<open>\<^verbatim>\<open>s.find(sub)\<close>, \<^verbatim>\<open>s.rfind(sub)\<close> and \<^verbatim>\<open>s.count(sub)\<close> for a non-empty \<open>sub\<close>.\<close>

fun find_from :: "nat \<Rightarrow> string \<Rightarrow> string \<Rightarrow> nat option" where
  "find_from i sub [] = (if sub = [] then Some i else None)"
| "find_from i sub (c # cs) = (if prefix sub (c # cs) then Some i else find_from (Suc i) sub cs)"

definition py_find :: "string \<Rightarrow> string \<Rightarrow> nat option" where
  "py_find s sub = find_from 0 sub s"

definition py_rfind :: "string \<Rightarrow> string \<Rightarrow> nat option" where
  "py_rfind s sub =
     (case filter (\<lambda>i. prefix sub (drop i s)) (rev [0..<Suc (length s)]) of
        [] \<Rightarrow> None
      | i # others \<Rightarrow> Some i)"

definition py_count :: "string \<Rightarrow> string \<Rightarrow> nat" where
  "py_count s sub = length (py_split s sub) - 1"

text \<open>
  The scan \<^verbatim>\<open>for i, char in enumerate(temp_content[start:])\<close>: the index at which
  the count of open braces returns to 0.
\<close>

fun brace_end :: "int \<Rightarrow> nat \<Rightarrow> string \<Rightarrow> nat option" where
  \<open>brace_end brace_count i [] = None\<close>
| \<open>brace_end brace_count i (c # cs) =
     (if c = CHR ''{'' then brace_end (brace_count + 1) (Suc i) cs
      else if c = CHR ''}'' then
        (if brace_count - 1 = 0 then Some i else brace_end (brace_count - 1) (Suc i) cs)
      else brace_end brace_count (Suc i) cs)\<close>

lemma find_from_nonempty: "find_from i sub s = Some j \<Longrightarrow> sub \<noteq> [] \<Longrightarrow> s \<noteq> []"
  by (cases s) auto

text \<open>The loop \<^verbatim>\<open>while '{"claims"' in temp_content\<close>, collecting \<^verbatim>\<open>objects\<close>.\<close>

function repair_loop :: "string \<Rightarrow> json list \<Rightarrow> error + json list" where
  \<open>repair_loop temp_content objects =
     (case py_find temp_content ''{"claims"'' of
        None \<Rightarrow> Inr objects
      | Some start \<Rightarrow>
          (case brace_end 0 0 (drop start temp_content) of
             None \<Rightarrow> Inr objects
           | Some i \<Rightarrow>
               if i > 0 then
                 (case json_loads (take (i + 1) (drop start temp_content)) of
                    Inr obj \<Rightarrow>
                      repair_loop (drop (start + i + 1) temp_content)
                        (case obj of
                           JObj d \<Rightarrow> if map_of d ''claims'' \<noteq> None then objects @ [obj] else objects
                         | _ \<Rightarrow> objects)
                  | Inl e \<Rightarrow>
                      if e = JSONDecodeError
                      then repair_loop (drop (start + i + 1) temp_content) objects
                      else Inl e)
               else Inr objects))\<close>
  by pat_completeness auto
termination
proof (relation "measure (\<lambda>(t, objs). length t)")
  show "wf (measure (\<lambda>(t, objs). length t))" by simp
next
  fix temp_content :: string and objects :: "json list" and start i
  assume "py_find temp_content ''{\"claims\"'' = Some start"
  then have "temp_content \<noteq> []"
    unfolding py_find_def by (rule find_from_nonempty) simp
  then show "((drop (start + i + 1) temp_content, objects), temp_content, objects)
               \<in> measure (\<lambda>(t, objs). length t)"
    by simp
next
  fix temp_content :: string and objects :: "json list" and start i and obj :: json
  assume "py_find temp_content ''{\"claims\"'' = Some start"
  then have "temp_content \<noteq> []"
    unfolding py_find_def by (rule find_from_nonempty) simp
  then show "((drop (start + i + 1) temp_content,
                case obj of JObj d \<Rightarrow> if map_of d ''claims'' \<noteq> None then objects @ [obj] else objects
                | _ \<Rightarrow> objects), temp_content, objects)
               \<in> measure (\<lambda>(t, objs). length t)"
    by simp
qed

declare repair_loop.simps [simp del]

definition repair_malformed_json :: "string \<Rightarrow> error + json option" where
  \<open>repair_malformed_json content =
     (case (py_find content ''{'', py_rfind content ''}'') of
        (Some start_idx, Some end_idx) \<Rightarrow>
          if end_idx \<le> start_idx then Inr None
          else
            (let json_content = take (end_idx + 1 - start_idx) (drop start_idx content);
                 parse_as_it_is = loads_or_cleaned json_content
             in if py_count json_content ''{"claims"'' > 1 then
                  (case repair_loop json_content [] of
                     Inl e \<Rightarrow> Inl e
                   | Inr objects \<Rightarrow>
                       (let all_claims =
                              concat (map (\<lambda>obj. case claims_list obj of Some xs \<Rightarrow> xs | None \<Rightarrow> [])
                                        objects)
                        in if all_claims \<noteq> [] then Inr (Some (JObj [(''claims'', JArr all_claims)]))
                           else parse_as_it_is))
                else parse_as_it_is)
      | _ \<Rightarrow> Inr None)\<close>

subsection \<open>\<^verbatim>\<open>extract_json_from_response\<close>\<close>

text \<open>
  \<^verbatim>\<open>result = strategy(content)\<close> followed by \<^verbatim>\<open>if result: return result\<close>, with
  what the function does when the result is not returned.
\<close>

definition or_else :: "error + json option \<Rightarrow> (error + json) \<Rightarrow> error + json" where
  "or_else result otherwise =
     (case result of
        Inl e \<Rightarrow> Inl e
      | Inr None \<Rightarrow> otherwise
      | Inr (Some v) \<Rightarrow> if truthy v then Inr v else otherwise)"

definition extract_json_from_response :: "string \<Rightarrow> error + json" where
  "extract_json_from_response raw =
     (if raw = [] then Inl ValueError
      else
        (let content = py_strip raw
         in case loads_or_cleaned content of
              Inl e \<Rightarrow> Inl e
            | Inr (Some v) \<Rightarrow> Inr v
            | Inr None \<Rightarrow>
                or_else (extract_json_from_markdown content)
               (or_else (extract_json_after_think_tags content)
               (or_else (extract_multiple_json_objects content)
               (or_else (extract_json_by_pattern content taxonomy_pattern True)
               (or_else (extract_json_by_pattern content partial_taxonomy_pattern False)
               (or_else (extract_json_by_pattern content claims_pattern False)
               (or_else (extract_json_after_text content)
               (or_else (repair_malformed_json content)
               (Inl ValueError))))))))))"

subsection \<open>Two concatenated \<^verbatim>\<open>claims\<close> objects\<close>

text \<open>
  The arrays \<open>A\<close> and \<open>B\<close> of a concatenated response: the one claim of \<open>A\<close> has
  an empty list among its fields.
\<close>

definition claims_A :: "json list" where
  "claims_A = [JObj [(''claim'', JStr ''Cats are best''), (''duplicates'', JArr [])]]"

definition claims_B :: "json list" where
  "claims_B = [JObj [(''claim'', JStr ''Dogs are best'')]]"

text \<open>Their serialisations, and the response that concatenates them.\<close>

definition serialized_A :: string where
  \<open>serialized_A = ''{"claims": [{"claim": "Cats are best", "duplicates": []}]}''\<close>

definition serialized_B :: string where
  \<open>serialized_B = ''{"claims": [{"claim": "Dogs are best"}]}''\<close>

definition concatenated_response :: string where
  "concatenated_response = serialized_A @ '' '' @ serialized_B"

section \<open>Stage 1: results\<close>

text \<open>
  Claim C3 (taxonomy completeness). Every topic that arrives without a non-empty
  \<^verbatim>\<open>subtopics\<close> array, the empty array included, should get the subtopic
  \<open>General <topicName>\<close>, so that every returned topic has at least one subtopic. The
  code synthesizes the subtopic only when the key is missing or its value is no list:
  a topic that arrives with \<^verbatim>\<open>"subtopics": []\<close> is returned as it came, with no
  subtopic at all.
\<close>

theorem empty_subtopics_list_is_kept:
  "normalize_tree pets_without_subtopics =
     [JObj [(''topicName'', JStr ''Pets''),
            (''topicShortDescription'', JStr ''Opinions about pets.''),
            (''subtopics'', JArr [])]] \<and>
   map num_subtopics (normalize_tree pets_without_subtopics) = [Some 0]"
  by code_simp

section \<open>Stage 2: results\<close>

subsection \<open>Lookups after an assignment\<close>


lemma dict_get_set [simp]:
  "dict_get (dict_set k v d) k' = (if key_of k' = key_of k then Some v else dict_get d k')"
  by (induction d) auto

lemma has_topic_set [simp]:
  "has_topic (dict_set k v nc) k' = (key_of k' = key_of k \<or> has_topic nc k')"
  by (auto simp: has_topic_def)

lemma has_bucket_set [simp]:
  "has_bucket (dict_set k tb nc) k' s =
     (if key_of k' = key_of k then dict_get (tb_subtopics tb) s \<noteq> None else has_bucket nc k' s)"
  by (auto simp: has_bucket_def)



lemma no_topic_no_bucket [simp]: "dict_get nc k = None \<Longrightarrow> \<not> has_bucket nc k s"
  by (simp add: has_bucket_def)

lemma has_bucket_Some [simp]:
  "dict_get nc k = Some tb \<Longrightarrow> has_bucket nc k s = (dict_get (tb_subtopics tb) s \<noteq> None)"
  by (simp add: has_bucket_def)

lemma has_topic_Some [simp]: "dict_get nc k = Some tb \<Longrightarrow> has_topic nc k"
  by (simp add: has_topic_def)

lemma has_topic_None [simp]: "dict_get nc k = None \<Longrightarrow> \<not> has_topic nc k"
  by (simp add: has_topic_def)

lemma names_in_Nil [simp]: "\<not> names_in [] s"
  by (simp add: names_in_def)


lemma names_in_append [simp]: "names_in (xs @ ys) s = (names_in xs s \<or> names_in ys s)"
  by (simp add: names_in_def list_ex_iff) blast

lemma key_of_None [simp]: "key_of (JStr n) = JStr n"
  by (simp add: key_of_def)

subsection \<open>The loop over the taxonomy\<close>







lemma listed_Nil [simp]: "listed [] k = []"
  by (simp add: listed_def)




subsection \<open>The loop over the claims\<close>







lemma no_topic_Nil [simp]: "\<not> has_topic [] k" "\<not> has_bucket [] k s"
  by (simp_all add: has_topic_def has_bucket_def)

subsection \<open>Coverage\<close>




section \<open>Stage 3: results\<close>

text \<open>
  Claim C1 (duplicate folding). For a subtopic with \<open>total > 1\<close> the fold should emit,
  for each unvisited claim \<open>k\<close>, a canonical copy whose \<^verbatim>\<open>duplicates\<close> hold a copy of
  claim \<open>m\<close> (the claim at relative index \<open>m\<close>) for every unvisited \<open>m\<close> of
  \<^verbatim>\<open>dupeMap[k]\<close>; for the two \<open>Cats\<close> claims and the nesting
  \<^verbatim>\<open>{"claimId0": [], "claimId1": ["claimId0"]}\<close> that is one canonical claim with one
  duplicate. The code looks the duplicate up by a \<^verbatim>\<open>"claimId"\<close> field that no claim
  carries, finds nothing, and still marks index 1 as accounted for: the output is one
  canonical claim whose \<^verbatim>\<open>duplicates\<close> list is empty, and the second claim is lost.
\<close>

theorem duplicates_of_cats_scenario_are_empty:
  "map_sum id (map (\<lambda>(topic, tr). (topic, map (\<lambda>(subtopic, r). (subtopic, rec_claims r)) (topics tr))))
     (sort_claims_tree cats_nesting cats_tree ''numPeople'')
   = Inr [(''Pets'', [(''Cats'', [cats_claim0 @ [(''duplicates'', JArr [])]])])]"
  by code_simp

text \<open>
  Claim C2 (count conservation). The sum of \<open>1 + len(duplicates)\<close> over the emitted
  claims of a subtopic should equal the bucket's total before deduplication, which is
  the \<^verbatim>\<open>counts.claims\<close> of the record. In the \<open>Cats\<close> scenario the code emits one
  claim without duplicates, so the sum is 1 while \<^verbatim>\<open>counts.claims\<close> is 2.
\<close>

theorem count_of_cats_scenario_is_not_conserved:
  "map_sum id count_table (sort_claims_tree cats_nesting cats_tree ''numPeople'')
   = Inr [(''Pets'', ''Cats'', 1, 2)]"
  by code_simp

text \<open>
  Claim C5 (invalid sort key). A request whose \<^verbatim>\<open>sort\<close> is neither \<^verbatim>\<open>"numPeople"\<close>
  nor \<^verbatim>\<open>"numClaims"\<close> should be refused as invalid input. The code has no such
  check: for the \<open>Cats\<close> tree and \<^verbatim>\<open>sort = "popularity"\<close> it runs the deduplication
  and then fails on the unassigned variable \<^verbatim>\<open>sorted_subtopics\<close>, an
  \<^verbatim>\<open>UnboundLocalError\<close> that nothing catches.
\<close>

theorem invalid_sort_key_raises_UnboundLocalError:
  "sort_claims_tree cats_nesting cats_tree ''popularity'' = Inl UnboundLocalError"
  by code_simp

text \<open>
  Claim C10 (the nesting-key parser is not total). There are deduplication responses
  with a non-empty value list under a key that is not \<^verbatim>\<open>claimId<k>\<close> for which
  \<^verbatim>\<open>int(claim_key.split("Id")[1])\<close> raises and the whole request fails: the key
  \<^verbatim>\<open>"claim0"\<close> has no piece after \<^verbatim>\<open>"Id"\<close> (\<^verbatim>\<open>IndexError\<close>), and the key
  \<^verbatim>\<open>"myIdx"\<close> has the piece \<^verbatim>\<open>"x"\<close>, which is no integer (\<^verbatim>\<open>ValueError\<close>).
\<close>

theorem malformed_nesting_key_fails_request:
  "sort_claims_tree nesting_without_Id cats_tree ''numPeople'' = Inl IndexError \<and>
   sort_claims_tree nesting_without_number cats_tree ''numPeople'' = Inl ValueError"
  by code_simp

section \<open>Stage 4: results\<close>

subsection \<open>The loops of \<^verbatim>\<open>controversy_matrix\<close>\<close>

lemma dims_row: "dims n cm \<Longrightarrow> a < n \<Longrightarrow> length (cm ! a) = n"
  by (simp add: dims_def)

lemma dims_bump: "dims n cm \<Longrightarrow> dims n (bump cm i j v)"
proof (cases "i < length cm")
  case True
  assume "dims n cm"
  with True show ?thesis
    by (auto simp: dims_def bump_def dest!: set_update_subset_insert [THEN subsetD])
next
  case False
  assume "dims n cm"
  with False show ?thesis by (simp add: bump_def list_update_beyond)
qed

lemma bump_entry:
  "dims n cm \<Longrightarrow> i < n \<Longrightarrow> j < n \<Longrightarrow> a < n \<Longrightarrow> b < n \<Longrightarrow>
   bump cm i j v ! a ! b = cm ! a ! b + (if a = i \<and> b = j then v else 0)"
  by (auto simp: dims_def bump_def nth_list_update)

lemma dims_add_controversy: "dims n cm \<Longrightarrow> dims n (add_controversy x y i j cm)"
  by (simp add: add_controversy_def dims_bump)

lemma bump_pair_entry:
  assumes "dims n cm" "i < n" "j < n" "i \<noteq> j" "a < n" "b < n"
  shows "bump (bump cm i j v) j i v ! a ! b =
           cm ! a ! b + (if (a = i \<and> b = j) \<or> (a = j \<and> b = i) then v else 0)"
proof -
  have "bump (bump cm i j v) j i v ! a ! b =
          bump cm i j v ! a ! b + (if a = j \<and> b = i then v else 0)"
    using assms by (intro bump_entry dims_bump)
  also have "bump cm i j v ! a ! b = cm ! a ! b + (if a = i \<and> b = j then v else 0)"
    using assms by (intro bump_entry)
  finally show ?thesis using assms(4) by auto
qed

lemma add_controversy_entry:
  "dims n cm \<Longrightarrow> i < n \<Longrightarrow> j < n \<Longrightarrow> i \<noteq> j \<Longrightarrow> a < n \<Longrightarrow> b < n \<Longrightarrow>
   add_controversy x y i j cm ! a ! b =
     cm ! a ! b + (if (a = i \<and> b = j) \<or> (a = j \<and> b = i) then spec_controversy x y else 0)"
  by (simp add: add_controversy_def spec_controversy_def bump_pair_entry)

lemma others_loop_entry:
  "dims n cm \<Longrightarrow> c + k + length os < n \<Longrightarrow>
   dims n (others_loop x c (enumerate k os) cm) \<and>
   (\<forall>a<n. \<forall>b<n. others_loop x c (enumerate k os) cm ! a ! b =
      cm ! a ! b +
        (if a = c \<and> c + k < b \<and> b \<le> c + k + length os then spec_controversy x (os ! (b - c - k - 1))
         else if b = c \<and> c + k < a \<and> a \<le> c + k + length os then spec_controversy x (os ! (a - c - k - 1))
         else 0))"
proof (induction os arbitrary: k cm)
  case Nil
  then show ?case by auto
next
  case (Cons o1 os)
  define cm1 where "cm1 = add_controversy x o1 c (c + k + 1) cm"
  have d1: "dims n cm1" using Cons.prems(1) by (simp add: cm1_def dims_add_controversy)
  have e1: "cm1 ! a ! b = cm ! a ! b +
      (if (a = c \<and> b = c + k + 1) \<or> (a = c + k + 1 \<and> b = c) then spec_controversy x o1 else 0)"
    if "a < n" "b < n" for a b
    unfolding cm1_def using Cons.prems that by (intro add_controversy_entry) auto
  have len: "c + Suc k + length os < n" using Cons.prems(2) by simp
  note ih = Cons.IH [OF d1 len]
  have step: "others_loop x c (enumerate k (o1 # os)) cm = others_loop x c (enumerate (Suc k) os) cm1"
    by (simp add: cm1_def)
  show ?case
  proof (intro conjI allI impI)
    show "dims n (others_loop x c (enumerate k (o1 # os)) cm)"
      using ih step by simp
  next
    fix a b assume ab: "a < n" "b < n"
    from ih ab have "others_loop x c (enumerate (Suc k) os) cm1 ! a ! b =
      cm1 ! a ! b +
        (if a = c \<and> c + Suc k < b \<and> b \<le> c + Suc k + length os then spec_controversy x (os ! (b - c - Suc k - 1))
         else if b = c \<and> c + Suc k < a \<and> a \<le> c + Suc k + length os then spec_controversy x (os ! (a - c - Suc k - 1))
         else 0)" by blast
    then show "others_loop x c (enumerate k (o1 # os)) cm ! a ! b =
      cm ! a ! b +
        (if a = c \<and> c + k < b \<and> b \<le> c + k + length (o1 # os) then spec_controversy x ((o1 # os) ! (b - c - k - 1))
         else if b = c \<and> c + k < a \<and> a \<le> c + k + length (o1 # os) then spec_controversy x ((o1 # os) ! (a - c - k - 1))
         else 0)"
      unfolding step e1 [OF ab]
      by (auto simp: nth_Cons' Suc_diff_Suc)
  qed
qed


lemma map_err_Inr: "(\<And>x. x \<in> set xs \<Longrightarrow> f x = Inr (g x)) \<Longrightarrow> map_err f xs = Inr (map g xs)"
  by (induction xs) auto

lemma column_read:
  assumes "\<forall>row\<in>set cont_mat. length (snd row) = m" and "s < m"
  shows "map_err (\<lambda>item. nth_err (snd item) s) (drop k cont_mat) =
           Inr (map (\<lambda>item. snd item ! s) (drop k cont_mat))"
proof (rule map_err_Inr)
  fix x assume "x \<in> set (drop k cont_mat)"
  then have "x \<in> set cont_mat" by (rule in_set_dropD)
  with assms show "nth_err (snd x) s = Inr (snd x ! s)" by (simp add: nth_err_def)
qed

lemma scores_loop_entry:
  assumes rect: "\<forall>row\<in>set cont_mat. length (snd row) = m"
    and n: "n = length cont_mat" and c: "c < n"
  shows "dims n cm \<Longrightarrow> s0 + length xs \<le> m \<Longrightarrow>
    \<exists>cm'. scores_loop cont_mat c (enumerate s0 xs) cm = Inr cm' \<and> dims n cm' \<and>
      (\<forall>a<n. \<forall>b<n. cm' ! a ! b =
         cm ! a ! b +
           (if a = c \<and> c < b
            then (\<Sum>t<length xs. spec_controversy (xs ! t) (snd (cont_mat ! b) ! (s0 + t)))
            else if b = c \<and> c < a
            then (\<Sum>t<length xs. spec_controversy (xs ! t) (snd (cont_mat ! a) ! (s0 + t)))
            else 0))"
proof (induction xs arbitrary: s0 cm)
  case Nil
  then show ?case by simp
next
  case (Cons x xs)
  define os where "os = map (\<lambda>item. snd item ! s0) (drop (c + 1) cont_mat)"
  define cm1 where "cm1 = others_loop x c (enumerate 0 os) cm"
  have s0: "s0 < m" using Cons.prems(2) by simp
  have rd: "map_err (\<lambda>item. nth_err (snd item) s0) (drop (c + 1) cont_mat) = Inr os"
    unfolding os_def using rect s0 by (rule column_read)
  have los: "length os = n - c - 1" by (simp add: os_def n)
  have "c + 0 + length os < n" using c los by simp
  from others_loop_entry [OF Cons.prems(1) this, of x]
  have d1: "dims n cm1"
    and e1: "\<And>a b. a < n \<Longrightarrow> b < n \<Longrightarrow> cm1 ! a ! b =
      cm ! a ! b +
        (if a = c \<and> c + 0 < b \<and> b \<le> c + 0 + length os then spec_controversy x (os ! (b - c - 0 - 1))
         else if b = c \<and> c + 0 < a \<and> a \<le> c + 0 + length os then spec_controversy x (os ! (a - c - 0 - 1))
         else 0)"
    by (simp_all add: cm1_def)
  have os_nth: "os ! (b - c - 1) = snd (cont_mat ! b) ! s0" if "c < b" "b < n" for b
  proof -
    from that have "Suc c + (b - c - 1) = b" by simp
    with that show ?thesis by (simp add: os_def n del: drop_Suc)
  qed
  have e1': "cm1 ! a ! b = cm ! a ! b +
        (if a = c \<and> c < b then spec_controversy x (snd (cont_mat ! b) ! s0)
         else if b = c \<and> c < a then spec_controversy x (snd (cont_mat ! a) ! s0)
         else 0)" if "a < n" "b < n" for a b
    using e1 [OF that] that los os_nth by auto
  have "Suc s0 + length xs \<le> m" using Cons.prems(2) by simp
  from Cons.IH [OF d1 this] obtain cm' where
    r: "scores_loop cont_mat c (enumerate (Suc s0) xs) cm1 = Inr cm'" and d': "dims n cm'"
    and e': "\<And>a b. a < n \<Longrightarrow> b < n \<Longrightarrow> cm' ! a ! b =
         cm1 ! a ! b +
           (if a = c \<and> c < b
            then (\<Sum>t<length xs. spec_controversy (xs ! t) (snd (cont_mat ! b) ! (Suc s0 + t)))
            else if b = c \<and> c < a
            then (\<Sum>t<length xs. spec_controversy (xs ! t) (snd (cont_mat ! a) ! (Suc s0 + t)))
            else 0)"
    by blast
  have run: "scores_loop cont_mat c (enumerate s0 (x # xs)) cm = Inr cm'"
    using rd r by (simp add: cm1_def)
  have sh: "(\<Sum>t<length (x # xs). spec_controversy ((x # xs) ! t) (snd (cont_mat ! r) ! (s0 + t))) =
      spec_controversy x (snd (cont_mat ! r) ! s0) +
      (\<Sum>t<length xs. spec_controversy (xs ! t) (snd (cont_mat ! r) ! (Suc s0 + t)))" for r
    by (simp add: sum.lessThan_Suc_shift del: sum.lessThan_Suc)
  have "cm' ! a ! b =
         cm ! a ! b +
           (if a = c \<and> c < b
            then (\<Sum>t<length (x # xs). spec_controversy ((x # xs) ! t) (snd (cont_mat ! b) ! (s0 + t)))
            else if b = c \<and> c < a
            then (\<Sum>t<length (x # xs). spec_controversy ((x # xs) ! t) (snd (cont_mat ! a) ! (s0 + t)))
            else 0)" if "a < n" "b < n" for a b
    unfolding e' [OF that] e1' [OF that] sh by auto
  with run d' show ?case by blast
qed

lemma rows_loop_entry:
  assumes rect: "\<forall>row\<in>set cont_mat. length (snd row) = m"
    and n: "n = length cont_mat"
  shows "dims n cm \<Longrightarrow> k = n - c0 \<Longrightarrow> c0 \<le> n \<Longrightarrow>
    \<exists>cm'. rows_loop cont_mat (enumerate c0 (drop c0 cont_mat)) cm = Inr cm' \<and> dims n cm' \<and>
      (\<forall>a<n. \<forall>b<n. cm' ! a ! b =
         cm ! a ! b +
           (if a \<noteq> b \<and> c0 \<le> min a b
            then (\<Sum>t<m. spec_controversy (snd (cont_mat ! min a b) ! t) (snd (cont_mat ! max a b) ! t))
            else 0))"
proof (induction k arbitrary: c0 cm)
  case 0
  then have "drop c0 cont_mat = []" using n by simp
  with 0 show ?case by auto
next
  case (Suc k)
  then have c0: "c0 < n" by simp
  have dr: "drop c0 cont_mat = cont_mat ! c0 # drop (Suc c0) cont_mat"
    using c0 n by (simp add: Cons_nth_drop_Suc)
  have lrow: "length (snd (cont_mat ! c0)) = m" using rect c0 n by simp
  then have "0 + length (snd (cont_mat ! c0)) \<le> m" by simp
  from scores_loop_entry [OF rect n c0 Suc.prems(1) this] obtain cm1 where
    r1: "scores_loop cont_mat c0 (enumerate 0 (snd (cont_mat ! c0))) cm = Inr cm1"
    and d1: "dims n cm1"
    and e1: "\<And>a b. a < n \<Longrightarrow> b < n \<Longrightarrow> cm1 ! a ! b =
         cm ! a ! b +
           (if a = c0 \<and> c0 < b
            then (\<Sum>t<m. spec_controversy (snd (cont_mat ! c0) ! t) (snd (cont_mat ! b) ! t))
            else if b = c0 \<and> c0 < a
            then (\<Sum>t<m. spec_controversy (snd (cont_mat ! c0) ! t) (snd (cont_mat ! a) ! t))
            else 0)"
    unfolding lrow by auto
  have "k = n - Suc c0" "Suc c0 \<le> n" using Suc.prems by simp_all
  from Suc.IH [OF d1 this] obtain cm' where
    r: "rows_loop cont_mat (enumerate (Suc c0) (drop (Suc c0) cont_mat)) cm1 = Inr cm'"
    and d': "dims n cm'"
    and e': "\<And>a b. a < n \<Longrightarrow> b < n \<Longrightarrow> cm' ! a ! b =
         cm1 ! a ! b +
           (if a \<noteq> b \<and> Suc c0 \<le> min a b
            then (\<Sum>t<m. spec_controversy (snd (cont_mat ! min a b) ! t) (snd (cont_mat ! max a b) ! t))
            else 0)"
    by blast
  have run: "rows_loop cont_mat (enumerate c0 (drop c0 cont_mat)) cm = Inr cm'"
    unfolding dr using r1 r by (cases "cont_mat ! c0") simp
  have "cm' ! a ! b =
         cm ! a ! b +
           (if a \<noteq> b \<and> c0 \<le> min a b
            then (\<Sum>t<m. spec_controversy (snd (cont_mat ! min a b) ! t) (snd (cont_mat ! max a b) ! t))
            else 0)" if "a < n" "b < n" for a b
  proof -
    consider (row) "a = c0" "c0 < b" | (col) "b = c0" "c0 < a"
      | (other) "\<not> (a = c0 \<and> c0 < b)" "\<not> (b = c0 \<and> c0 < a)"
      by blast
    then show ?thesis
    proof cases
      case row
      then have "min a b = c0" "max a b = b" "a \<noteq> b" by simp_all
      with row show ?thesis unfolding e' [OF that] e1 [OF that] by simp
    next
      case col
      then have "min a b = c0" "max a b = a" "a \<noteq> b" by simp_all
      with col show ?thesis unfolding e' [OF that] e1 [OF that] by simp
    next
      case other
      then have "(a \<noteq> b \<and> Suc c0 \<le> min a b) = (a \<noteq> b \<and> c0 \<le> min a b)"
        by (auto simp: min_def)
      moreover from other have "(a = c0 \<and> c0 < b) = False" "(b = c0 \<and> c0 < a) = False"
        by simp_all
      ultimately show ?thesis unfolding e' [OF that] e1 [OF that] by auto
    qed
  qed
  with run d' show ?case by blast
qed

lemma spec_controversy_sym: "spec_controversy a b = spec_controversy b a"
  by (auto simp: spec_controversy_def)

text \<open>
  The table that \<^verbatim>\<open>cruxes_from_tree\<close> builds has one score per speaker in every row, each
  of them 0, 0.5 or 1.
\<close>

lemma score_table_rows:
  assumes "row \<in> set (score_table speaker_map crux_claims)"
  shows "length (snd row) = length speaker_map \<and> set (snd row) \<subseteq> {0, 1 / 2, 1}"
  using assms by (auto simp: score_table_def claim_scores_def)

text \<open>
  Claim C6 (controversy matrix). For a score table whose rows all have \<open>m\<close> scores,
  \<^verbatim>\<open>controversy_matrix\<close> returns a square matrix \<open>M\<close> over the cruxes such that for
  every \<open>i < j\<close> the entry \<open>M[i][j]\<close> is the sum over the speakers of 0 when the two
  scores are equal, 0.5 when they differ and one is 0, and 1 when they differ and both
  are non-zero; \<open>M[j][i] = M[i][j]\<close> and \<open>M[i][i] = 0\<close> for all \<open>i\<close>, \<open>j\<close>.
\<close>

theorem controversy_matrix_correct:
  assumes "\<forall>row\<in>set cont_mat. length (snd row) = m"
  shows "\<exists>cm. controversy_matrix cont_mat = Inr cm \<and> length cm = length cont_mat \<and>
     (\<forall>i<length cont_mat. length (cm ! i) = length cont_mat \<and> cm ! i ! i = 0 \<and>
        (\<forall>j<length cont_mat. cm ! j ! i = cm ! i ! j \<and>
           (i < j \<longrightarrow> cm ! i ! j =
              (\<Sum>s<m. spec_controversy (snd (cont_mat ! i) ! s) (snd (cont_mat ! j) ! s)))))"
proof -
  define n where "n = length cont_mat"
  define cm0 :: "rat list list" where "cm0 = replicate n (replicate n 0)"
  have d0: "dims n cm0" by (simp add: cm0_def dims_def)
  have z: "cm0 ! a ! b = 0" if "a < n" "b < n" for a b using that by (simp add: cm0_def)
  from rows_loop_entry [OF assms n_def d0, of n 0] obtain cm where
    r: "rows_loop cont_mat (enumerate 0 cont_mat) cm0 = Inr cm" and d: "dims n cm"
    and e: "\<And>a b. a < n \<Longrightarrow> b < n \<Longrightarrow> cm ! a ! b =
         cm0 ! a ! b +
           (if a \<noteq> b \<and> 0 \<le> min a b
            then (\<Sum>t<m. spec_controversy (snd (cont_mat ! min a b) ! t) (snd (cont_mat ! max a b) ! t))
            else 0)"
    by auto
  have run: "controversy_matrix cont_mat = Inr cm"
    using r by (simp add: controversy_matrix_def cm0_def n_def)
  have ent: "cm ! a ! b = (if a = b then 0
      else (\<Sum>t<m. spec_controversy (snd (cont_mat ! min a b) ! t) (snd (cont_mat ! max a b) ! t)))"
    if "a < n" "b < n" for a b
    using e [OF that] z [OF that] by simp
  have "length (cm ! i) = n \<and> cm ! i ! i = 0 \<and>
        (\<forall>j<n. cm ! j ! i = cm ! i ! j \<and>
           (i < j \<longrightarrow> cm ! i ! j =
              (\<Sum>s<m. spec_controversy (snd (cont_mat ! i) ! s) (snd (cont_mat ! j) ! s))))"
    if i: "i < n" for i
  proof (intro conjI allI impI)
    show "length (cm ! i) = n" using d i by (rule dims_row)
    show "cm ! i ! i = 0" using ent [OF i i] by simp
  next
    fix j assume j: "j < n"
    show "cm ! j ! i = cm ! i ! j"
      unfolding ent [OF i j] ent [OF j i] by (simp add: min.commute max.commute)
    assume "i < j"
    then show "cm ! i ! j = (\<Sum>s<m. spec_controversy (snd (cont_mat ! i) ! s) (snd (cont_mat ! j) ! s))"
      unfolding ent [OF i j] by (simp add: min_def max_def)
  qed
  then have all: "\<forall>i<n. length (cm ! i) = n \<and> cm ! i ! i = 0 \<and>
        (\<forall>j<n. cm ! j ! i = cm ! i ! j \<and>
           (i < j \<longrightarrow> cm ! i ! j =
              (\<Sum>s<m. spec_controversy (snd (cont_mat ! i) ! s) (snd (cont_mat ! j) ! s))))"
    by blast
  have len: "length cm = n" using d by (simp add: dims_def)
  from run len all show ?thesis unfolding n_def by blast
qed

theorem controversy_matrix_correct_witness:
  "map (\<lambda>row. length (snd row)) scenario_scores = [3, 3] \<and>
   (\<exists>cm. controversy_matrix scenario_scores = Inr cm \<and>
         cm ! 0 ! 1 = 2 \<and> cm ! 1 ! 0 = 2 \<and> cm ! 0 ! 0 = 0 \<and> cm ! 1 ! 1 = 0)"
proof -
  have h: "\<forall>row\<in>set scenario_scores. length (snd row) = 3"
    by (simp add: scenario_scores_def)
  have l: "length scenario_scores = 2" by (simp add: scenario_scores_def)
  from controversy_matrix_correct [OF h] obtain cm where
    r: "controversy_matrix scenario_scores = Inr cm"
    and e: "\<forall>i<2. length (cm ! i) = 2 \<and> cm ! i ! i = 0 \<and>
        (\<forall>j<2. cm ! j ! i = cm ! i ! j \<and>
           (i < j \<longrightarrow> cm ! i ! j =
              (\<Sum>s<3. spec_controversy (snd (scenario_scores ! i) ! s) (snd (scenario_scores ! j) ! s))))"
    unfolding l by blast
  have 0: "(0::nat) < 2" and 1: "(1::nat) < 2" and 01: "(0::nat) < 1" by simp_all
  have s: "(\<Sum>s<3. spec_controversy (snd (scenario_scores ! 0) ! s) (snd (scenario_scores ! 1) ! s)) = 2"
    by (simp add: scenario_scores_def spec_controversy_def numeral_3_eq_3)
  from e 0 have p0: "cm ! 0 ! 0 = 0 \<and>
        (\<forall>j<2. cm ! j ! 0 = cm ! 0 ! j \<and>
           (0 < j \<longrightarrow> cm ! 0 ! j =
              (\<Sum>s<3. spec_controversy (snd (scenario_scores ! 0) ! s) (snd (scenario_scores ! j) ! s))))"
    by (elim allE [of _ 0] impE) simp_all
  from e 1 have d1: "cm ! 1 ! 1 = 0"
    by (elim allE [of _ 1] impE) simp_all
  from p0 have d0: "cm ! 0 ! 0 = 0" by (rule conjunct1)
  from p0 1 have p01: "cm ! 1 ! 0 = cm ! 0 ! 1 \<and>
           (0 < (1::nat) \<longrightarrow> cm ! 0 ! 1 =
              (\<Sum>s<3. spec_controversy (snd (scenario_scores ! 0) ! s) (snd (scenario_scores ! 1) ! s)))"
    by (elim conjE allE [of _ 1] impE) simp_all
  from p01 01 s have u: "cm ! 0 ! 1 = 2" by simp
  from p01 u have m: "cm ! 1 ! 0 = 2" by simp
  have c: "map (\<lambda>row. length (snd row)) scenario_scores = [3, 3]"
    by (simp add: scenario_scores_def)
  show ?thesis
    by (intro conjI exI [of _ cm]) (fact c r u m d0 d1)+
qed

subsection \<open>\<^verbatim>\<open>top_k_cruxes\<close>\<close>

text \<open>The search of \<^const>\<open>ceil_sqrt\<close> finds the ceiling of the real square root.\<close>

lemma hd_filter_Least:
  assumes "P k" and "k < m"
  shows "hd (filter P [0..<m]) = (LEAST k. P k)"
proof -
  define l where "l = (LEAST k. P k)"
  have Pl: "P l" unfolding l_def using assms(1) by (rule LeastI)
  have "l \<le> k" unfolding l_def using assms(1) by (rule Least_le)
  with assms(2) have lm: "l < m" by simp
  have below: "\<not> P j" if "j < l" for j using that not_less_Least l_def by metis
  from lm have "[0..<m] = [0..<l] @ l # [Suc l..<m]"
    by (metis le0 upt_add_eq_append upt_conv_Cons add.commute less_imp_add_positive
        le_add1 ordered_cancel_comm_monoid_diff_class.add_diff_inverse less_imp_le_nat)
  moreover have "filter P [0..<l] = []" using below by (auto simp: filter_empty_conv)
  ultimately show ?thesis using Pl by (simp add: l_def)
qed

lemma ceil_sqrt_Least: "ceil_sqrt n = (LEAST k. n \<le> k * k)"
  unfolding ceil_sqrt_def
proof (rule hd_filter_Least)
  show "n \<le> n * n" by (cases n) simp_all
  show "n < Suc n" by simp
qed

lemma ceil_sqrt_real: "ceil_sqrt n = nat \<lceil>sqrt (real n)\<rceil>"
proof -
  define c where "c = nat \<lceil>sqrt (real n)\<rceil>"
  have nonneg: "0 \<le> sqrt (real n)" by simp
  have le_iff: "n \<le> k * k \<longleftrightarrow> sqrt (real n) \<le> real k" for k
  proof -
    have "n \<le> k * k \<longleftrightarrow> real n \<le> (real k)\<^sup>2"
      by (metis of_nat_le_iff of_nat_mult power2_eq_square)
    also have "\<dots> \<longleftrightarrow> sqrt (real n) \<le> real k"
      by (metis of_nat_0_le_iff real_le_rsqrt real_sqrt_le_iff real_sqrt_abs abs_of_nat real_sqrt_le_mono)
    finally show ?thesis .
  qed
  have c1: "sqrt (real n) \<le> real c"
    unfolding c_def using nonneg by (metis le_of_int_ceiling of_nat_nat ceiling_mono ceiling_zero order_trans of_int_of_nat_eq)
  have c2: "c \<le> k" if "sqrt (real n) \<le> real k" for k
    unfolding c_def using that by (metis ceiling_mono ceiling_of_nat nat_int nat_mono)
  have "(LEAST k. n \<le> k * k) = c"
    by (rule Least_equality) (use c1 c2 le_iff in auto)
  then show ?thesis by (simp add: ceil_sqrt_Least c_def)
qed


lemma map_err_all2:
  "map_err f xs = Inr ys \<Longrightarrow> list_all2 (\<lambda>x y. f x = Inr y) xs ys"
proof (induction xs arbitrary: ys)
  case Nil
  then show ?case by simp
next
  case (Cons x xs)
  then show ?case by (auto split: sum.splits)
qed

lemma map_err_map:
  "map_err f xs = Inr ys \<Longrightarrow> (\<forall>x\<in>set xs. \<forall>y. f x = Inr y \<longrightarrow> y = g x) \<Longrightarrow> ys = map g xs"
  by (induction xs arbitrary: ys) (auto split: sum.splits)

lemma map_err_member:
  "map_err f xs = Inr ys \<Longrightarrow> y \<in> set ys \<Longrightarrow> \<exists>x\<in>set xs. f x = Inr y"
  by (induction xs arbitrary: ys) (auto split: sum.splits)

lemma length_py_take: "0 \<le> K \<Longrightarrow> length (py_take K xs) \<le> nat K"
  by (simp add: py_take_def)

lemma set_py_take: "set (py_take K xs) \<subseteq> set xs"
  by (auto simp: py_take_def dest: in_set_takeD)

lemma sorted_desc_set: "set (sorted_desc k xs) = set xs"
  by (simp add: sorted_desc_def)

lemma sorted_desc_descending:
  fixes k :: "'a \<Rightarrow> rat"
  shows "sorted_wrt (\<lambda>a b. k b \<le> k a) (sorted_desc k xs)"
proof -
  have "sorted (map (\<lambda>x. - k x) (sorted_desc k xs))"
    unfolding sorted_desc_def by (rule sorted_sort_key)
  then show ?thesis by (simp add: sorted_map)
qed

lemma py_take_descending:
  "sorted_wrt R xs \<Longrightarrow> sorted_wrt R (py_take K xs)"
  by (simp add: py_take_def sorted_wrt_take)

lemma upper_triangle_entries:
  assumes "upper_triangle cont_mat = Inr scores" and "(s, x, y) \<in> set scores"
  shows "x < y \<and> y < length cont_mat \<and> s = cont_mat ! x ! y"
proof -
  from map_err_member [OF assms(1) [unfolded upper_triangle_def] assms(2)]
  obtain a b where ab: "a < b" "b < length cont_mat"
    and f: "(case nth_err (cont_mat ! a) b of Inl e \<Rightarrow> Inl e | Inr s' \<Rightarrow> Inr (s', a, b)) = Inr (s, x, y)"
    by (auto simp: Suc_le_eq)
  from f have "a = x" "b = y" "nth_err (cont_mat ! x) y = Inr s"
    by (auto split: sum.splits)
  with ab show ?thesis by (auto simp: nth_err_def split: if_splits)
qed

text \<open>
  What a returned list looks like, for any matrix on which the function returns: the
  pairs are entries of the upper triangle with their scores and cruxes, in descending
  order of score, cut to the first \<open>K\<close>.
\<close>

lemma top_k_cruxes_result:
  assumes "top_k_cruxes cont_mat cruxes top_k = Inr top_cruxes"
  shows "\<exists>entries. top_k_entries cont_mat (length cruxes) top_k = Inr entries \<and>
           top_cruxes = map (\<lambda>(s, x, y). \<lparr>score = s, cruxA = cruxes ! x, cruxB = cruxes ! y\<rparr>) entries \<and>
           list_all (\<lambda>(s, x, y). x < y \<and> y < length cont_mat \<and> s = cont_mat ! x ! y) entries \<and>
           sorted_wrt (\<lambda>a b. fst b \<le> fst a) entries \<and>
           (top_k = 0 \<longrightarrow> length top_cruxes \<le> min (nat \<lceil>sqrt (real (length cruxes))\<rceil>) 10) \<and>
           (0 < top_k \<longrightarrow> int (length top_cruxes) \<le> top_k)"
proof -
  define K where "K = (if top_k = 0 then min (int (ceil_sqrt (length cruxes))) 10 else top_k)"
  from assms obtain entries where
    en: "top_k_entries cont_mat (length cruxes) top_k = Inr entries"
    and tp: "map_err (\<lambda>(s, x, y).
            case nth_err cruxes x of
              Inl e \<Rightarrow> Inl e
            | Inr a \<Rightarrow> (case nth_err cruxes y of
                          Inl e \<Rightarrow> Inl e
                        | Inr b \<Rightarrow> Inr \<lparr>score = s, cruxA = a, cruxB = b\<rparr>)) entries = Inr top_cruxes"
    by (auto simp: top_k_cruxes_def split: sum.splits)
  from en obtain scores where sc: "upper_triangle cont_mat = Inr scores"
    and ent: "entries = py_take K (sorted_desc fst scores)"
    by (auto simp: top_k_entries_def K_def Let_def split: sum.splits)
  have top_map: "top_cruxes = map (\<lambda>(s, x, y). \<lparr>score = s, cruxA = cruxes ! x, cruxB = cruxes ! y\<rparr>) entries"
    using tp by (rule map_err_map) (auto simp: nth_err_def split: if_splits)
  have sub: "set entries \<subseteq> set scores"
    unfolding ent using set_py_take [of K "sorted_desc fst scores"] by (simp add: sorted_desc_set)
  have tri: "list_all (\<lambda>(s, x, y). x < y \<and> y < length cont_mat \<and> s = cont_mat ! x ! y) entries"
    unfolding list_all_iff using sub upper_triangle_entries [OF sc] by blast
  have desc: "sorted_wrt (\<lambda>a b. fst b \<le> fst a) entries"
    unfolding ent by (intro py_take_descending sorted_desc_descending)
  have len: "length top_cruxes = length entries" by (simp add: top_map)
  have b0: "length top_cruxes \<le> min (nat \<lceil>sqrt (real (length cruxes))\<rceil>) 10" if "top_k = 0"
  proof -
    from that have "K = min (int (ceil_sqrt (length cruxes))) 10" by (simp add: K_def)
    then have "0 \<le> K" and "nat K = min (ceil_sqrt (length cruxes)) 10" by simp_all
    with length_py_take [of K "sorted_desc fst scores"] show ?thesis
      by (simp add: len ent ceil_sqrt_real)
  qed
  have b1: "int (length top_cruxes) \<le> top_k" if "0 < top_k"
  proof -
    from that have "K = top_k" "0 \<le> K" by (simp_all add: K_def)
    with length_py_take [of K "sorted_desc fst scores"] show ?thesis
      by (simp add: len ent)
  qed
  from en top_map tri desc b0 b1 show ?thesis by blast
qed

text \<open>
  On a square matrix with one row per crux no index is out of range, so the function
  returns.
\<close>

lemma upper_triangle_total:
  assumes "dims n cont_mat"
  shows "\<exists>scores. upper_triangle cont_mat = Inr scores"
proof -
  have "map_err (\<lambda>(x, y). case nth_err (cont_mat ! x) y of Inl e \<Rightarrow> Inl e | Inr s \<Rightarrow> Inr (s, x, y))
          (concat (map (\<lambda>x. map (\<lambda>y. (x, y)) [x + 1..<length cont_mat]) [0..<length cont_mat]))
        = Inr (map (\<lambda>(x, y). (cont_mat ! x ! y, x, y))
          (concat (map (\<lambda>x. map (\<lambda>y. (x, y)) [x + 1..<length cont_mat]) [0..<length cont_mat])))"
  proof (rule map_err_Inr)
    fix p
    assume "p \<in> set (concat (map (\<lambda>x. map (\<lambda>y. (x, y)) [x + 1..<length cont_mat]) [0..<length cont_mat]))"
    then obtain x y where p: "p = (x, y)" and xy: "x < length cont_mat" "y < length cont_mat"
      by auto
    from assms xy have "length (cont_mat ! x) = length cont_mat"
      by (simp add: dims_def)
    with xy show "(case p of (x, y) \<Rightarrow> case nth_err (cont_mat ! x) y of Inl e \<Rightarrow> Inl e | Inr s \<Rightarrow> Inr (s, x, y))
        = Inr (case p of (x, y) \<Rightarrow> (cont_mat ! x ! y, x, y))"
      by (simp add: p nth_err_def)
  qed
  then show ?thesis by (simp add: upper_triangle_def)
qed

lemma top_k_cruxes_total:
  assumes "dims (length cruxes) cont_mat"
  shows "\<exists>top_cruxes. top_k_cruxes cont_mat cruxes top_k = Inr top_cruxes"
proof -
  define K where "K = (if top_k = 0 then min (int (ceil_sqrt (length cruxes))) 10 else top_k)"
  from upper_triangle_total [OF assms] obtain scores where sc: "upper_triangle cont_mat = Inr scores"
    by blast
  define entries where "entries = py_take K (sorted_desc fst scores)"
  have en: "top_k_entries cont_mat (length cruxes) top_k = Inr entries"
    by (simp add: top_k_entries_def sc entries_def K_def Let_def)
  have sub: "set entries \<subseteq> set scores"
    unfolding entries_def using set_py_take [of K "sorted_desc fst scores"] by (simp add: sorted_desc_set)
  have len: "length cont_mat = length cruxes" using assms by (simp add: dims_def)
  have "map_err (\<lambda>(s, x, y).
            case nth_err cruxes x of
              Inl e \<Rightarrow> Inl e
            | Inr a \<Rightarrow> (case nth_err cruxes y of
                          Inl e \<Rightarrow> Inl e
                        | Inr b \<Rightarrow> Inr \<lparr>score = s, cruxA = a, cruxB = b\<rparr>)) entries
        = Inr (map (\<lambda>(s, x, y). \<lparr>score = s, cruxA = cruxes ! x, cruxB = cruxes ! y\<rparr>) entries)"
  proof (rule map_err_Inr)
    fix e
    assume e: "e \<in> set entries"
    obtain s x y where sxy: "e = (s, x, y)" by (cases e) auto
    from e sub sxy have "(s, x, y) \<in> set scores" by auto
    from upper_triangle_entries [OF sc this] len have "x < length cruxes" "y < length cruxes"
      by simp_all
    then show "(case e of (s, x, y) \<Rightarrow>
            case nth_err cruxes x of
              Inl e \<Rightarrow> Inl e
            | Inr a \<Rightarrow> (case nth_err cruxes y of
                          Inl e \<Rightarrow> Inl e
                        | Inr b \<Rightarrow> Inr \<lparr>score = s, cruxA = a, cruxB = b\<rparr>))
         = Inr (case e of (s, x, y) \<Rightarrow> \<lparr>score = s, cruxA = cruxes ! x, cruxB = cruxes ! y\<rparr>)"
      by (simp add: sxy nth_err_def)
  qed
  with en show ?thesis by (simp add: top_k_cruxes_def)
qed

text \<open>
  Claim C9 (top-K bound). For a controversy matrix over \<open>N\<close> cruxes (\<open>N\<close> rows of length
  \<open>N\<close>), \<^verbatim>\<open>top_k_cruxes\<close> returns, and the list has at most \<open>min(\<lceil>\<surd>N\<rceil>, 10)\<close> pairs for
  \<^verbatim>\<open>top_k == 0\<close> and at most \<^verbatim>\<open>top_k\<close> pairs for \<^verbatim>\<open>top_k > 0\<close>; each pair is an entry
  \<open>(i, j)\<close> of the upper triangle (\<open>i < j\<close>) with its score and the two cruxes, and the
  pairs are in descending order of score.
\<close>

theorem top_k_bound:
  assumes "dims (length cruxes) cont_mat"
  shows "\<exists>top_cruxes entries.
           top_k_cruxes cont_mat cruxes top_k = Inr top_cruxes \<and>
           top_k_entries cont_mat (length cruxes) top_k = Inr entries \<and>
           top_cruxes = map (\<lambda>(s, x, y). \<lparr>score = s, cruxA = cruxes ! x, cruxB = cruxes ! y\<rparr>) entries \<and>
           list_all (\<lambda>(s, x, y). x < y \<and> y < length cont_mat \<and> s = cont_mat ! x ! y) entries \<and>
           sorted_wrt (\<lambda>a b. fst b \<le> fst a) entries \<and>
           (top_k = 0 \<longrightarrow> length top_cruxes \<le> min (nat \<lceil>sqrt (real (length cruxes))\<rceil>) 10) \<and>
           (0 < top_k \<longrightarrow> int (length top_cruxes) \<le> top_k)"
proof -
  from top_k_cruxes_total [OF assms] obtain top_cruxes where
    r: "top_k_cruxes cont_mat cruxes top_k = Inr top_cruxes"
    by blast
  from top_k_cruxes_result [OF r] r show ?thesis by blast
qed

theorem top_k_bound_witness:
  "dims (length scenario_cruxes) scenario_matrix \<and>
   top_k_cruxes scenario_matrix scenario_cruxes 0 = Inr scenario_top \<and>
   length scenario_top \<le> min (nat \<lceil>sqrt (real (length scenario_cruxes))\<rceil>) 10 \<and>
   top_k_cruxes scenario_matrix scenario_cruxes 1 = Inr (take 1 scenario_top) \<and>
   int (length (take 1 scenario_top)) \<le> 1"
proof -
  have d: "dims (length scenario_cruxes) scenario_matrix"
    by (simp add: dims_def scenario_cruxes_def scenario_matrix_def)
  have 0: "top_k_cruxes scenario_matrix scenario_cruxes 0 = Inr scenario_top"
    by code_simp
  have 1: "top_k_cruxes scenario_matrix scenario_cruxes 1 = Inr (take 1 scenario_top)"
    by code_simp
  from top_k_bound [OF d, of 0] 0
  have a: "length scenario_top \<le> min (nat \<lceil>sqrt (real (length scenario_cruxes))\<rceil>) 10"
    by auto
  from top_k_bound [OF d, of 1] 1
  have b: "int (length (take 1 scenario_top)) \<le> 1"
    by auto
  from d 0 1 a b show ?thesis by blast
qed

subsection \<open>The rows of \<^verbatim>\<open>crux_claims\<close>\<close>

lemma split_colon_head:
  "\<exists>rest. split_str '':'' cur s = (cur @ before_colon s) # rest"
proof (induction s arbitrary: cur)
  case Nil
  show ?case by (subst split_str.simps) (simp add: before_colon_def)
next
  case (Cons x xs)
  show ?case
  proof (cases "x = CHR '':''")
    case True
    then show ?thesis by (subst split_str.simps) (simp add: before_colon_def)
  next
    case False
    with Cons [of "cur @ [x]"] show ?thesis
      by (subst split_str.simps) (simp add: before_colon_def)
  qed
qed

lemma entry_id_JStr: "entry_id (JStr s) = Inr (before_colon s)"
  using split_colon_head [of "[]" s] by (auto simp: entry_id_def py_split_def)

lemma entry_ids: "map_err entry_id (map JStr es) = Inr (map before_colon es)"
proof -
  have "map_err entry_id (map JStr es) = Inr (map (\<lambda>v. case v of JStr s \<Rightarrow> before_colon s | _ \<Rightarrow> []) (map JStr es))"
    by (rule map_err_Inr) (auto simp: entry_id_JStr)
  then show ?thesis by (simp add: comp_def)
qed

lemma ids_to_speakers_fold:
  "map_of (foldl (\<lambda>m (k, v). AList.update v k m) m0 sm) a = Some name \<Longrightarrow>
   map_of m0 a = Some name \<or> (name, a) \<in> set sm"
proof (induction sm arbitrary: m0)
  case Nil
  then show ?case by simp
next
  case (Cons kv sm)
  obtain k v where kv: "kv = (k, v)" by (cases kv)
  from Cons.prems have "map_of (foldl (\<lambda>m (k, v). AList.update v k m) (AList.update v k m0) sm) a = Some name"
    by (simp add: kv)
  from Cons.IH [OF this] show ?case
    by (auto simp: kv update_conv' split: if_splits)
qed

lemma ids_to_speakers_sound:
  "map_of (ids_to_speakers sm) a = Some name \<Longrightarrow> (name, a) \<in> set sm"
  unfolding ids_to_speakers_def by (drule ids_to_speakers_fold) simp

lemma before_colon_no_colon: "CHR '':'' \<notin> set (before_colon s)"
  unfolding before_colon_def by (auto dest: set_takeWhileD)

lemma before_colon_named: "CHR '':'' \<notin> set a \<Longrightarrow> before_colon (a @ '':'' @ name) = a"
  by (simp add: before_colon_def takeWhile_append)

lemma named_ids:
  assumes "map_err (named_id m) ids = Inr named"
  shows "named = map (\<lambda>a. a @ '':'' @ the (map_of m a)) ids"
    and "\<forall>a\<in>set ids. map_of m a \<noteq> None"
proof -
  show "named = map (\<lambda>a. a @ '':'' @ the (map_of m a)) ids"
    using assms by (rule map_err_map) (auto simp: named_id_def split: option.splits)
  show "\<forall>a\<in>set ids. map_of m a \<noteq> None"
    using assms by (induction ids arbitrary: named) (auto simp: named_id_def split: sum.splits option.splits)
qed

text \<open>
  Claim C7 (bare speaker ids), as stated: every element of \<^verbatim>\<open>agree\<close> and
  \<^verbatim>\<open>disagree\<close> of a returned row is an id of the speaker map, and the two lists are
  disjoint. It fails: the row holds \<^verbatim>\<open>named_agree\<close> and \<^verbatim>\<open>named_disagree\<close>, whose
  elements are \<^verbatim>\<open>"<id>:<speakerName>"\<close>, here \<^verbatim>\<open>"0:Alice"\<close>, which is no id of
  the map; and when the model lists speaker 0 on both sides, \<^verbatim>\<open>"0:Alice"\<close> is in
  both lists.
\<close>

theorem crux_row_members_are_named_and_may_overlap:
  "full_speaker_map pets_crux_tree = Inr pets_speaker_map \<and>
   map_sum id agree (make_crux_row pets_speaker_map pets_crux) = Inr [''0:Alice''] \<and>
   ''0:Alice'' \<notin> snd ` set pets_speaker_map \<and>
   map_sum id (\<lambda>row. (agree row, disagree row)) (make_crux_row pets_speaker_map undecided_crux) =
     Inr ([''0:Alice''], [''0:Alice''])"
  by code_simp

text \<open>
  Claim C7, amended. When the model's \<^verbatim>\<open>agree\<close> and \<^verbatim>\<open>disagree\<close> are lists of strings
  and the row is built, each element of the row's \<^verbatim>\<open>agree\<close> and \<^verbatim>\<open>disagree\<close> is
  \<^verbatim>\<open>"<id>:<speakerName>"\<close>, where \<open>id\<close> is the part of the model's entry before its
  first colon and the speaker map assigns \<open>id\<close> to \<open>speakerName\<close>; the two lists are
  disjoint exactly when the ids that the model listed on the two sides are.
\<close>

theorem crux_row_members:
  assumes "make_crux_row speaker_map crux = Inr row"
    and "map_of crux ''agree'' = Some (JArr (map JStr agree_entries))"
    and "map_of crux ''disagree'' = Some (JArr (map JStr disagree_entries))"
  shows "list_all2 (\<lambda>e named. \<exists>name. (name, before_colon e) \<in> set speaker_map \<and>
                                    named = before_colon e @ '':'' @ name)
           agree_entries (agree row) \<and>
         list_all2 (\<lambda>e named. \<exists>name. (name, before_colon e) \<in> set speaker_map \<and>
                                    named = before_colon e @ '':'' @ name)
           disagree_entries (disagree row) \<and>
         ((set (agree row) \<inter> set (disagree row) = {}) =
          (before_colon ` set agree_entries \<inter> before_colon ` set disagree_entries = {}))"
proof -
  define m where "m = ids_to_speakers speaker_map"
  define g where "g = (\<lambda>a. a @ '':'' @ the (map_of m a))"
  from assms obtain named_agree named_disagree where
    na: "map_err (named_id m) (map before_colon agree_entries) = Inr named_agree"
    and nd: "map_err (named_id m) (map before_colon disagree_entries) = Inr named_disagree"
    and a: "agree row = named_agree" and d: "disagree row = named_disagree"
    by (auto simp: make_crux_row_def iter_items_def entry_ids m_def split: option.splits sum.splits)
  note A = named_ids [OF na] and D = named_ids [OF nd]
  have one: "list_all2 (\<lambda>e named. \<exists>name. (name, before_colon e) \<in> set speaker_map \<and>
                                    named = before_colon e @ '':'' @ name) es (map g (map before_colon es))"
    if "\<forall>a\<in>set (map before_colon es). map_of m a \<noteq> None" for es
    unfolding list_all2_conv_all_nth
  proof (intro conjI allI impI)
    show "length es = length (map g (map before_colon es))" by simp
    fix i assume i: "i < length es"
    with that obtain name where n: "map_of m (before_colon (es ! i)) = Some name" by fastforce
    then have "(name, before_colon (es ! i)) \<in> set speaker_map"
      unfolding m_def by (rule ids_to_speakers_sound)
    with i n show "\<exists>name. (name, before_colon (es ! i)) \<in> set speaker_map \<and>
        map g (map before_colon es) ! i = before_colon (es ! i) @ '':'' @ name"
      by (auto simp: g_def)
  qed
  have inj: "inj_on g (before_colon ` (set agree_entries \<union> set disagree_entries))"
  proof (rule inj_on_inverseI)
    fix a assume "a \<in> before_colon ` (set agree_entries \<union> set disagree_entries)"
    then have "CHR '':'' \<notin> set a" using before_colon_no_colon by auto
    then show "before_colon (g a) = a" unfolding g_def by (rule before_colon_named)
  qed
  have "set (agree row) \<inter> set (disagree row) =
        g ` (before_colon ` set agree_entries \<inter> before_colon ` set disagree_entries)"
    unfolding a d A(1) D(1) g_def [symmetric]
    using inj_on_image_Int [OF inj, of "before_colon ` set agree_entries" "before_colon ` set disagree_entries"]
    by auto
  then have dis: "(set (agree row) \<inter> set (disagree row) = {}) =
          (before_colon ` set agree_entries \<inter> before_colon ` set disagree_entries = {})"
    by simp
  from one [OF A(2)] one [OF D(2)] dis show ?thesis
    unfolding a d A(1) D(1) g_def [symmetric] by blast
qed


theorem crux_row_members_witness:
  "\<exists>row. make_crux_row pets_speaker_map pets_crux = Inr row \<and>
         (\<exists>name. (name, ''0'') \<in> set pets_speaker_map \<and> agree row = [''0:'' @ name]) \<and>
         (\<exists>name. (name, ''1'') \<in> set pets_speaker_map \<and> disagree row = [''1:'' @ name]) \<and>
         set (agree row) \<inter> set (disagree row) = {}"
proof -
  have "case make_crux_row pets_speaker_map pets_crux of Inl e \<Rightarrow> False | Inr row \<Rightarrow> True"
    by code_simp
  then obtain row where r: "make_crux_row pets_speaker_map pets_crux = Inr row"
    by (auto split: sum.splits)
  have a: "map_of pets_crux ''agree'' = Some (JArr (map JStr [''0:Cats are the best pets.'']))"
    by code_simp
  have d: "map_of pets_crux ''disagree'' = Some (JArr (map JStr [''1:Dogs are superior pets.'']))"
    by code_simp
  have b0: "before_colon ''0:Cats are the best pets.'' = ''0''"
    and b1: "before_colon ''1:Dogs are superior pets.'' = ''1''"
    by (simp_all add: before_colon_def)
  from crux_row_members [OF r a d]
  have "(\<exists>name. (name, ''0'') \<in> set pets_speaker_map \<and> agree row = [''0:'' @ name]) \<and>
        (\<exists>name. (name, ''1'') \<in> set pets_speaker_map \<and> disagree row = [''1:'' @ name]) \<and>
        set (agree row) \<inter> set (disagree row) = {}"
    by (auto simp: b0 b1 list_all2_Cons1)
  with r show ?thesis by blast
qed

section \<open>The JSON extractor: results\<close>

text \<open>
  Claim C8 (merging concatenated \<^verbatim>\<open>claims\<close> objects). For all JSON arrays \<open>A\<close> and
  \<open>B\<close>, extracting from the serialisation of \<^verbatim>\<open>{"claims": A}\<close>, a space and the
  serialisation of \<^verbatim>\<open>{"claims": B}\<close> should give \<^verbatim>\<open>{"claims": A ++ B}\<close>. The code
  finds the objects with a lazy pattern that ends at the first \<^verbatim>\<open>]\<close> followed by
  \<^verbatim>\<open>}\<close>: for \<open>A\<close> above the first match is cut inside the claim, does not decode
  and is skipped, and the result holds the claims of \<open>B\<close> only. The last strategy,
  which counts braces, merges the same text into \<open>A ++ B\<close>, but it is not reached.
\<close>

theorem concatenated_claims_lose_first_array:
  "json_dumps (JObj [(''claims'', JArr claims_A)]) = Some serialized_A \<and>
   json_dumps (JObj [(''claims'', JArr claims_B)]) = Some serialized_B \<and>
   extract_json_from_response concatenated_response = Inr (JObj [(''claims'', JArr claims_B)]) \<and>
   repair_malformed_json concatenated_response =
     Inr (Some (JObj [(''claims'', JArr (claims_A @ claims_B))]))"
  by code_simp

end
